theory Spec2Isabelle
  imports Complex_Main "HOL-Library.Multiset" "HOL-Library.Extended_Nat"
begin

section \<open>Card model (src/logic/deck.ts)\<close>

text \<open>
  The TypeScript types \<^verbatim>\<open>Suit\<close> and \<^verbatim>\<open>Rank\<close> are closed unions of one-letter strings and
  \<^verbatim>\<open>Card\<close> is the template type \<^verbatim>\<open>`${Rank}${Suit}`\<close>, so a card is exactly a rank followed
  by a suit. The constructors stand for the letters
  \<^verbatim>\<open>'S' 'H' 'D' 'C'\<close> and \<^verbatim>\<open>'A' 'K' 'Q' 'J' 'T' '9' ... '3'\<close>.
\<close>

datatype suit = Spades | Hearts | Diamonds | Clubs

datatype rank = Ace | King | Queen | Jack | Ten | Nine | Eight | Seven | Six | Five | Four | Three

datatype card = Card rank suit

definition RANKS :: "rank list" where
  "RANKS = [Ace, King, Queen, Jack, Ten, Nine, Eight, Seven, Six, Five, Four, Three]"

definition SUITS :: "suit list" where
  "SUITS = [Spades, Hearts, Diamonds, Clubs]"

fun cardSuit :: "card \<Rightarrow> suit" where
  "cardSuit (Card r s) = s"

fun cardRank :: "card \<Rightarrow> rank" where
  "cardRank (Card r s) = r"

text \<open>\<^verbatim>\<open>RANK_POWER\<close>: the strength table, Ace high.\<close>

fun RANK_POWER :: "rank \<Rightarrow> int" where
  "RANK_POWER Ace = 12"
| "RANK_POWER King = 11"
| "RANK_POWER Queen = 10"
| "RANK_POWER Jack = 9"
| "RANK_POWER Ten = 8"
| "RANK_POWER Nine = 7"
| "RANK_POWER Eight = 6"
| "RANK_POWER Seven = 5"
| "RANK_POWER Six = 4"
| "RANK_POWER Five = 3"
| "RANK_POWER Four = 2"
| "RANK_POWER Three = 1"

text \<open>\<^verbatim>\<open>Play = { seat: number; card: Card; order: number }\<close>. Seats and orders are integers
  (\<^verbatim>\<open>indexOf\<close> may give \<open>-1\<close>).\<close>

record Play =
  seat :: int
  card :: card
  order :: int

section \<open>Array.prototype.sort\<close>

text \<open>
  \<^verbatim>\<open>arr.sort(cmp)\<close> is a stable sort (ECMAScript 2019): for a comparator that is a consistent
  ordering of the elements, the result is the one stable arrangement in which \<open>cmp a b \<le> 0\<close>
  holds for every \<open>a\<close> placed before \<open>b\<close>. Insertion from the right end, putting an element in
  front of the first element it does not exceed, computes that arrangement.
\<close>

fun insort_cmp :: "('a \<Rightarrow> 'a \<Rightarrow> int) \<Rightarrow> 'a \<Rightarrow> 'a list \<Rightarrow> 'a list" where
  "insort_cmp cmp x [] = [x]"
| "insort_cmp cmp x (y # ys) = (if cmp x y \<le> 0 then x # y # ys else y # insort_cmp cmp x ys)"

definition sort_cmp :: "('a \<Rightarrow> 'a \<Rightarrow> int) \<Rightarrow> 'a list \<Rightarrow> 'a list" where
  "sort_cmp cmp xs = foldr (insort_cmp cmp) xs []"

text \<open>A comparator is consistent on a set when \<open>cmp a b \<le> 0\<close> is total and transitive there.\<close>

definition consistent_on :: "'a set \<Rightarrow> ('a \<Rightarrow> 'a \<Rightarrow> int) \<Rightarrow> bool" where
  "consistent_on A cmp \<longleftrightarrow>
     (\<forall>a\<in>A. \<forall>b\<in>A. cmp a b \<le> 0 \<or> cmp b a \<le> 0) \<and>
     (\<forall>a\<in>A. \<forall>b\<in>A. \<forall>c\<in>A. cmp a b \<le> 0 \<longrightarrow> cmp b c \<le> 0 \<longrightarrow> cmp a c \<le> 0)"

section \<open>Trick winner (src/logic/deck.ts)\<close>

text \<open>The comparator passed to \<^verbatim>\<open>contenders.sort\<close> in \<^verbatim>\<open>evaluateTrickWinner\<close>.\<close>

definition trickCmp :: "Play \<Rightarrow> Play \<Rightarrow> int" where
  "trickCmp a b =
     (let ra = RANK_POWER (cardRank (card a)); rb = RANK_POWER (cardRank (card b))
      in if ra \<noteq> rb then ra - rb
         else if cardSuit (card a) \<noteq> cardSuit (card b) then 0
         else order a - order b)"

text \<open>
  \<^verbatim>\<open>evaluateTrickWinner(plays, ledSuit, trumpSuit?)\<close>. The trump suit may be
  \<^verbatim>\<open>null\<close>/\<^verbatim>\<open>undefined\<close> (\<open>None\<close>). The led suit is declared \<^verbatim>\<open>Suit\<close>, but the callers pass
  \<^verbatim>\<open>room.ledSuit as Suit\<close>, which is \<^verbatim>\<open>null\<close> at run time when no suit is stored; no card
  has that suit, so \<open>None\<close> matches no play. Indexing the empty contender array at
  \<open>-1\<close> gives \<^verbatim>\<open>undefined\<close>, the result \<open>None\<close>.
\<close>

definition evaluateTrickWinner :: "Play list \<Rightarrow> suit option \<Rightarrow> suit option \<Rightarrow> Play option" where
  "evaluateTrickWinner plays ledSuit trumpSuit =
     (let hasTrump = (case trumpSuit of
                        Some t \<Rightarrow> list_ex (\<lambda>p. cardSuit (card p) = t) plays
                      | None \<Rightarrow> False);
          contenders = (if hasTrump \<and> trumpSuit \<noteq> None
                        then filter (\<lambda>p. Some (cardSuit (card p)) = trumpSuit) plays
                        else filter (\<lambda>p. Some (cardSuit (card p)) = ledSuit) plays);
          sorted = sort_cmp trickCmp contenders
      in if sorted = [] then None else Some (last sorted))"

text \<open>
  The contender set in the words of the specification: the trump plays when a trump suit
  is active and at least one play is of it, the plays of the led suit otherwise.
\<close>

definition contenderSet :: "Play list \<Rightarrow> suit option \<Rightarrow> suit option \<Rightarrow> Play set" where
  "contenderSet plays ledSuit trumpSuit =
     (if trumpSuit \<noteq> None \<and> (\<exists>p\<in>set plays. Some (cardSuit (card p)) = trumpSuit)
      then {p \<in> set plays. Some (cardSuit (card p)) = trumpSuit}
      else {p \<in> set plays. Some (cardSuit (card p)) = ledSuit})"

definition strength :: "Play \<Rightarrow> int" where
  "strength p = RANK_POWER (cardRank (card p))"

text \<open>\<^verbatim>\<open>legalPlays(hand, ledSuit?)\<close>: with no led suit the whole hand; otherwise the cards of
  the led suit if there are any, else the whole hand.\<close>

definition legalPlays :: "card list \<Rightarrow> suit option \<Rightarrow> card list" where
  "legalPlays hand ledSuit =
     (case ledSuit of
        None \<Rightarrow> hand
      | Some l \<Rightarrow> (let ofLed = filter (\<lambda>c. cardSuit c = l) hand
                  in if length ofLed \<noteq> 0 then ofLed else hand))"

section \<open>Reveal test and trick resolution (src/logic/mindi.ts)\<close>

text \<open>
  \<^verbatim>\<open>canRevealTrump(handVisible, hidden, ledSuit?, trumpRevealed?)\<close>. The optional arguments
  are options: an absent \<^verbatim>\<open>trumpRevealed\<close> is falsy, an absent or \<^verbatim>\<open>null\<close> led suit is falsy.
  The function has no trump-suit parameter, and \<^verbatim>\<open>hidden\<close> is not read.
\<close>

definition canRevealTrump ::
  "card list \<Rightarrow> card option \<Rightarrow> suit option \<Rightarrow> bool option \<Rightarrow> bool" where
  "canRevealTrump handVisible hidden ledSuit trumpRevealed =
     (if trumpRevealed = Some True then False
      else case ledSuit of
             None \<Rightarrow> False
           | Some l \<Rightarrow> (let hasLed = list_ex (\<lambda>c. cardSuit c = l) handVisible
                       in if hasLed then False else True))"

text \<open>Values thrown by the code: a \<^verbatim>\<open>TypeError\<close> of the runtime (a property read on
  \<^verbatim>\<open>undefined\<close>), or \<^verbatim>\<open>new Error(message)\<close>.\<close>

datatype error = TypeError | Error string

text \<open>\<^verbatim>\<open>undefinedIfUnrevealed(trumpSuit, plays)\<close> returns its first argument.\<close>

definition undefinedIfUnrevealed :: "suit \<Rightarrow> Play list \<Rightarrow> suit option" where
  "undefinedIfUnrevealed trumpSuit plays = Some trumpSuit"

text \<open>\<^verbatim>\<open>resolveTrick(plays, ledSuit, trumpSuit, players)\<close> returns
  \<^verbatim>\<open>{ winnerSeat, tensTaken }\<close>; reading \<^verbatim>\<open>win.seat\<close> of an undefined winner throws.\<close>

record TrickResult =
  winnerSeat :: int
  tensTaken :: nat

definition resolveTrick :: "Play list \<Rightarrow> suit \<Rightarrow> suit \<Rightarrow> nat \<Rightarrow> error + TrickResult" where
  "resolveTrick plays ledSuit trumpSuit players =
     (case evaluateTrickWinner plays (Some ledSuit) (undefinedIfUnrevealed trumpSuit plays) of
        None \<Rightarrow> Inl TypeError
      | Some win \<Rightarrow>
          (let tens = length (filter (\<lambda>p. cardRank (card p) = Ten) plays)
           in Inr \<lparr>winnerSeat = seat win, tensTaken = tens\<rparr>))"

section \<open>Decks (src/logic/deck.ts)\<close>

datatype deckCount = OneDeck | TwoDecks

definition buildSingleDeckNoTwos :: "card list" where
  "buildSingleDeckNoTwos = concat (map (\<lambda>s. map (\<lambda>r. Card r s) RANKS) SUITS)"

definition buildDecksNoTwos :: "deckCount \<Rightarrow> card list" where
  "buildDecksNoTwos dc =
     (let one = buildSingleDeckNoTwos
      in if dc = OneDeck then one else one @ one)"

text \<open>
  \<^verbatim>\<open>cardsPerPlayer(players, deckCount)\<close>. Player counts are natural numbers. In the
  fallback \<^verbatim>\<open>Math.floor(total / players)\<close> a division by zero gives \<^verbatim>\<open>Infinity\<close>, the
  value \<open>\<infinity>\<close> here.
\<close>

definition cardsPerPlayer :: "nat \<Rightarrow> deckCount \<Rightarrow> enat" where
  "cardsPerPlayer players dc =
     (if players = 6 \<and> dc = OneDeck then 8
      else if players = 8 \<and> dc = OneDeck then 6
      else if players = 8 \<and> dc = TwoDecks then 12
      else if players = 4 \<and> dc = OneDeck then 12
      else (let total = length (buildDecksNoTwos dc)
            in if players = 0 then \<infinity> else enat (total div players)))"

section \<open>Seeded shuffle (src/logic/deck.ts)\<close>

text \<open>
  A random draw is a number in the half-open unit interval: what \<^verbatim>\<open>Math.random()\<close> and a
  generator made by \<^verbatim>\<open>seedrandom(seed)\<close> return. The floating-point product
  \<^verbatim>\<open>rng() * n\<close> is taken as the product of real numbers.
\<close>

typedef draw = "{r :: real. 0 \<le> r \<and> r < 1}"
  by (rule exI [of _ 0]) simp

setup_lifting type_definition_draw

lift_definition draw_zero :: draw is "0 :: real"
  by simp

lift_definition draw_high :: draw is "99 / 100 :: real"
  by simp

text \<open>\<^verbatim>\<open>Math.floor(r * n)\<close> for a draw \<open>r\<close> and an array length or index bound \<open>n\<close>.\<close>

definition floorMul :: "draw \<Rightarrow> nat \<Rightarrow> nat" where
  "floorMul r n = nat \<lfloor>Rep_draw r * real n\<rfloor>"

text \<open>
  The loop of \<^verbatim>\<open>shuffle\<close> on its local array \<open>a\<close>: \<open>i\<close> runs from \<open>a.length - 1\<close> down to 1,
  the \<open>k\<close>-th call of the generator gives \<open>j\<close>, and \<open>a[i]\<close>, \<open>a[j]\<close> are exchanged. A draw is
  below 1, so \<open>j \<le> i\<close> and both indices are inside the array (lemma \<open>floorMul_le\<close>).
\<close>

fun shuffleLoop :: "(nat \<Rightarrow> draw) \<Rightarrow> nat \<Rightarrow> nat \<Rightarrow> 'a list \<Rightarrow> 'a list" where
  "shuffleLoop rng k 0 a = a"
| "shuffleLoop rng k (Suc i') a =
     (let i = Suc i';
          j = floorMul (rng k) (i + 1)
      in shuffleLoop rng (Suc k) i' (a[i := a ! j, j := a ! i]))"

text \<open>
  \<^verbatim>\<open>shuffle(arr, seed)\<close> as a function of the contents of \<open>arr\<close>. The library function
  \<^verbatim>\<open>seedrandom\<close> is a parameter: \<open>seedrandom seed k\<close> is the value of call number \<open>k\<close> of
  the generator made from \<open>seed\<close>. For the empty array \<open>a.length - 1\<close> is \<open>-1\<close> and the loop
  does not run, as for the bound \<open>0\<close>.
\<close>

definition shuffle :: "(string \<Rightarrow> nat \<Rightarrow> draw) \<Rightarrow> 'a list \<Rightarrow> string \<Rightarrow> 'a list" where
  "shuffle seedrandom arr seed =
     (let rng = seedrandom seed;
          a = arr
      in shuffleLoop rng 0 (length a - 1) a)"

text \<open>
  The same function on a store of arrays, where an array argument is a reference (an
  index into the store): \<^verbatim>\<open>arr.slice()\<close> allocates a new array with the contents of \<open>arr\<close>,
  the loop writes to that array only, and its reference is returned.
\<close>

definition shuffle_store ::
  "(string \<Rightarrow> nat \<Rightarrow> draw) \<Rightarrow> 'a list list \<Rightarrow> nat \<Rightarrow> string \<Rightarrow> 'a list list \<times> nat" where
  "shuffle_store seedrandom st arr seed =
     (let rng = seedrandom seed;
          a = length st;
          st1 = st @ [st ! arr];
          st2 = st1[a := shuffleLoop rng 0 (length (st1 ! a) - 1) (st1 ! a)]
      in (st2, a))"

section \<open>Deal planning (src/logic/mindi.ts)\<close>

text \<open>\<^verbatim>\<open>Array.prototype.indexOf\<close>: the first position of an element, \<open>-1\<close> if absent.\<close>

fun indexOf :: "'a list \<Rightarrow> 'a \<Rightarrow> int" where
  "indexOf [] x = -1"
| "indexOf (y # ys) x =
     (if y = x then 0 else (let r = indexOf ys x in if r < 0 then -1 else r + 1))"

fun SUIT_ORDER :: "suit \<Rightarrow> int" where
  "SUIT_ORDER Spades = 0"
| "SUIT_ORDER Hearts = 1"
| "SUIT_ORDER Diamonds = 2"
| "SUIT_ORDER Clubs = 3"

definition sortBySuitRank :: "card \<Rightarrow> card \<Rightarrow> int" where
  "sortBySuitRank a b =
     (let sa = cardSuit a; sb = cardSuit b
      in if sa \<noteq> sb then SUIT_ORDER sa - SUIT_ORDER sb
         else (let ra = indexOf RANKS (cardRank a); rb = indexOf RANKS (cardRank b)
               in ra - rb))"

text \<open>A hand, \<^verbatim>\<open>{ visible: Card[]; hidden?: Card | null }\<close> (also \<^verbatim>\<open>MyHandDoc\<close>).\<close>

record Hand =
  visible :: "card list"
  hidden :: "card option"

text \<open>\<^verbatim>\<open>DealPlan\<close>; the fields carry the prefix \<open>plan_\<close> to keep them apart from the
  parameters of \<^verbatim>\<open>planDeal\<close> and the fields of the room.\<close>

record DealPlan =
  plan_deckCount :: deckCount
  plan_players :: nat
  plan_hiderSeat :: nat
  plan_leaderSeat :: nat
  plan_trumpSuit :: suit
  plan_hands :: "Hand list"
  plan_seed :: string

text \<open>
  The dealing loop of \<^verbatim>\<open>planDeal\<close>: \<open>m\<close> iterations remain, \<open>i\<close> is the loop index and
  \<open>st\<close> the seat. \<^verbatim>\<open>raw[seat].push\<close> throws when \<open>seat\<close> is no index of \<open>raw\<close>. The index \<open>i\<close>
  stays below \<open>players * each\<close>, which never exceeds the deck (lemma \<open>dealt_le_deck\<close>).
\<close>

fun dealLoop ::
  "card list \<Rightarrow> nat \<Rightarrow> nat \<Rightarrow> nat \<Rightarrow> nat \<Rightarrow> card list list \<Rightarrow> error + card list list" where
  "dealLoop deck players 0 i st raw = Inr raw"
| "dealLoop deck players (Suc m) i st raw =
     (if st < length raw
      then dealLoop deck players m (Suc i) ((st + 1) mod players) (raw[st := raw ! st @ [deck ! i]])
      else Inl TypeError)"

text \<open>
  \<^verbatim>\<open>planDeal(players, deckCount, hiderSeat, leaderSeat, seed)\<close>. Beside \<^verbatim>\<open>seedrandom\<close> the
  outcome \<open>random\<close> of the one call of \<^verbatim>\<open>Math.random()\<close> is a parameter. With
  \<open>players = 0\<close> the loop bound \<open>0 * Infinity\<close> is \<^verbatim>\<open>NaN\<close> and the loop does not run.
  \<^verbatim>\<open>raw[hiderSeat].length\<close> throws when \<open>hiderSeat\<close> is no index of \<open>raw\<close>; when the hider's
  hand is empty, \<^verbatim>\<open>splice\<close> removes nothing and \<^verbatim>\<open>cardSuit(undefined)\<close> throws. The splice
  changes \<open>raw[hiderSeat]\<close> itself.
\<close>

definition planDeal ::
  "(string \<Rightarrow> nat \<Rightarrow> draw) \<Rightarrow> draw \<Rightarrow> nat \<Rightarrow> deckCount \<Rightarrow> nat \<Rightarrow> nat \<Rightarrow> string
     \<Rightarrow> error + DealPlan" where
  "planDeal seedrandom random players dc hiderSeat leaderSeat seed =
     (let deck = shuffle seedrandom (buildDecksNoTwos dc) seed;
          each = cardsPerPlayer players dc;
          bound = (case each of enat e \<Rightarrow> players * e | \<infinity> \<Rightarrow> 0)
      in case dealLoop deck players bound 0 leaderSeat (replicate players []) of
           Inl e \<Rightarrow> Inl e
         | Inr raw \<Rightarrow>
             if \<not> hiderSeat < length raw then Inl TypeError
             else (let hiderHand = raw ! hiderSeat;
                       idx = floorMul random (length hiderHand)
                   in if \<not> idx < length hiderHand then Inl TypeError
                      else (let hid = hiderHand ! idx;
                                raw' = raw[hiderSeat := take idx hiderHand @ drop (Suc idx) hiderHand];
                                trumpSuit = cardSuit hid;
                                hands = map (\<lambda>s. \<lparr>visible = sort_cmp sortBySuitRank (raw' ! s),
                                                  hidden = (if s = hiderSeat then Some hid else None)\<rparr>)
                                          [0..<length raw']
                            in Inr \<lparr>plan_deckCount = dc, plan_players = players,
                                    plan_hiderSeat = hiderSeat, plan_leaderSeat = leaderSeat,
                                    plan_trumpSuit = trumpSuit, plan_hands = hands,
                                    plan_seed = seed\<rparr>)))"

text \<open>The cards that the round-robin deal of the first \<open>n\<close> cards of \<open>deck\<close>, starting at
  \<open>leaderSeat\<close>, gives to seat \<open>s\<close>, in the order dealt.\<close>

definition dealtTo :: "card list \<Rightarrow> nat \<Rightarrow> nat \<Rightarrow> nat \<Rightarrow> nat \<Rightarrow> card list" where
  "dealtTo deck players leaderSeat n s =
     map (\<lambda>i. deck ! i) (filter (\<lambda>i. (leaderSeat + i) mod players = s) [0..<n])"

text \<open>The display order of a hand as \<^verbatim>\<open>sortBySuitRank\<close> has it: by suit in the order
  Spades, Hearts, Diamonds, Clubs, and within a suit by position in \<^verbatim>\<open>RANKS\<close>, the Ace first
  and the Three last.\<close>

definition displayBefore :: "card \<Rightarrow> card \<Rightarrow> bool" where
  "displayBefore a b \<longleftrightarrow>
     SUIT_ORDER (cardSuit a) < SUIT_ORDER (cardSuit b) \<or>
     (cardSuit a = cardSuit b \<and> RANK_POWER (cardRank a) \<ge> RANK_POWER (cardRank b))"

text \<open>The display order in the words of the specification: within a suit the weakest rank
  first and the Ace last.\<close>

definition specDisplayBefore :: "card \<Rightarrow> card \<Rightarrow> bool" where
  "specDisplayBefore a b \<longleftrightarrow>
     SUIT_ORDER (cardSuit a) < SUIT_ORDER (cardSuit b) \<or>
     (cardSuit a = cardSuit b \<and> RANK_POWER (cardRank a) \<le> RANK_POWER (cardRank b))"

text \<open>\<^verbatim>\<open>applyRevealOnHand(h, usingHidden, playedIfNotHidden?)\<close> changes \<open>h\<close> in place; the
  changed hand is the result. The third argument is not read.\<close>

definition applyRevealOnHand :: "Hand \<Rightarrow> bool \<Rightarrow> Hand" where
  "applyRevealOnHand h usingHidden =
     (if usingHidden then h\<lparr>hidden := None\<rparr>
      else case hidden h of
             Some hc \<Rightarrow> h\<lparr>visible := sort_cmp sortBySuitRank (visible h @ [hc]), hidden := None\<rparr>
           | None \<Rightarrow> h)"

text \<open>All cards of a plan as a multiset: the visible cards of every hand together with the
  hidden card of the hand that has one.\<close>

definition handCards :: "Hand \<Rightarrow> card multiset" where
  "handCards h = mset (visible h) + (case hidden h of None \<Rightarrow> {#} | Some c \<Rightarrow> {#c#})"

definition planCards :: "DealPlan \<Rightarrow> card multiset" where
  "planCards plan = sum_list (map handCards (plan_hands plan))"

text \<open>The number of cards that \<^verbatim>\<open>planDeal\<close> deals: \<open>players\<close> times the fallback quotient, which
  the four table entries of \<^verbatim>\<open>cardsPerPlayer\<close> agree with.\<close>

definition dealtCount :: "nat \<Rightarrow> deckCount \<Rightarrow> nat" where
  "dealtCount players dc = players * (length (buildDecksNoTwos dc) div players)"

section \<open>The game screen: shared documents and transactions (app/game.tsx)\<close>

text \<open>
  A number stored in \<^verbatim>\<open>currentTurnSeat\<close> is an integer or \<^verbatim>\<open>NaN\<close>, the value of a
  remainder by zero.
\<close>

datatype jsnum = Number int | NaN

text \<open>The remainder operator \<^verbatim>\<open>a % b\<close>: the sign of the result is that of \<open>a\<close>.\<close>

definition jsRem :: "int \<Rightarrow> int \<Rightarrow> jsnum" where
  "jsRem a b = (if b = 0 then NaN else Number (sgn a * (\<bar>a\<bar> mod \<bar>b\<bar>)))"

text \<open>\<^verbatim>\<open>x || 0\<close> on an optional number: \<^verbatim>\<open>undefined\<close>, \<^verbatim>\<open>NaN\<close> and \<open>0\<close> give \<open>0\<close>.\<close>

fun numOrZero :: "jsnum option \<Rightarrow> int" where
  "numOrZero None = 0"
| "numOrZero (Some NaN) = 0"
| "numOrZero (Some (Number n)) = n"

fun intOrZero :: "int option \<Rightarrow> int" where
  "intOrZero None = 0"
| "intOrZero (Some n) = n"

text \<open>
  \<^verbatim>\<open>RoomState\<close>, the room document. Every field is optional. The fields that neither
  \<^verbatim>\<open>playCard\<close> nor \<^verbatim>\<open>revealTrumpAndPlay\<close> reads or writes (\<^verbatim>\<open>mode\<close>, \<^verbatim>\<open>deckCount\<close>,
  \<^verbatim>\<open>hostUid\<close>, \<^verbatim>\<open>handNumber\<close>, \<^verbatim>\<open>hiderSeat\<close>, \<^verbatim>\<open>leaderSeat\<close>, the scrap and match counters,
  \<^verbatim>\<open>seed\<close>) live in the extension slot of the record, which every update keeps.
\<close>

record RoomState =
  seats :: "string list option"
  teamMap :: "string list option"
  trumpSuit :: "suit option"
  trumpRevealed :: "bool option"
  trumpRevealedBySeat :: "int option"
  currentTurnSeat :: "jsnum option"
  ledSuit :: "suit option"
  plays :: "Play list option"
  trickIndex :: "int option"
  tensByTeam :: "(string \<rightharpoonup> int) option"

text \<open>
  The shared store of one room: the document \<^verbatim>\<open>rooms/{roomId}\<close> and the private hand
  documents \<^verbatim>\<open>rooms/{roomId}/hands/{uid}\<close>. A missing document reads as \<^verbatim>\<open>undefined\<close>.
\<close>

record Store =
  room :: "RoomState option"
  handDocs :: "string \<rightharpoonup> Hand"

text \<open>What the component holds when a handler runs: the room id, the user id, and its last
  snapshots of the room and of the user's own hand.\<close>

record Client =
  roomId :: "string option"
  uid :: "string option"
  state :: "RoomState option"
  myHand :: "Hand option"

text \<open>\<^verbatim>\<open>!x\<close> for an optional string: absent or empty.\<close>

fun falsyStr :: "string option \<Rightarrow> bool" where
  "falsyStr None = True"
| "falsyStr (Some x) = (x = [])"

text \<open>\<^verbatim>\<open>teamMap[seat]\<close> used as a key of \<^verbatim>\<open>tensByTeam\<close>: outside the array the value is
  \<^verbatim>\<open>undefined\<close> and the key is the string \<^verbatim>\<open>"undefined"\<close>.\<close>

definition teamKey :: "string list \<Rightarrow> int \<Rightarrow> string" where
  "teamKey tm n = (if 0 \<le> n \<and> n < int (length tm) then tm ! nat n else ''undefined'')"

text \<open>\<^verbatim>\<open>vis.splice(idx, 1)\<close> for an index inside the array.\<close>

definition spliceOne :: "'a list \<Rightarrow> nat \<Rightarrow> 'a list" where
  "spliceOne xs idx = take idx xs @ drop (Suc idx) xs"

text \<open>
  The end of a trick, shared by both transactions: the winner by \<^verbatim>\<open>evaluateTrickWinner\<close>,
  the tens of the trick credited to the winner's team, and the room reset for the next
  trick. Reading \<^verbatim>\<open>win.seat\<close> of an undefined winner, or indexing an absent
  \<^verbatim>\<open>teamMap\<close>, throws.
\<close>

definition finishTrick ::
  "RoomState \<Rightarrow> RoomState \<Rightarrow> Play list \<Rightarrow> suit option \<Rightarrow> suit option \<Rightarrow> error + RoomState" where
  "finishTrick rm upd newPlays led trump =
     (case evaluateTrickWinner newPlays led trump of
        None \<Rightarrow> Inl TypeError
      | Some win \<Rightarrow>
          (case teamMap rm of
             None \<Rightarrow> Inl TypeError
           | Some tm \<Rightarrow>
               (let tens = length (filter (\<lambda>p. cardRank (card p) = Ten) newPlays);
                    tbt = (case tensByTeam rm of None \<Rightarrow> Map.empty | Some m \<Rightarrow> m);
                    winnerTeam = teamKey tm (seat win);
                    tbt' = tbt(winnerTeam \<mapsto>
                             (case tbt winnerTeam of None \<Rightarrow> 0 | Some v \<Rightarrow> v) + int tens)
                in Inr (upd\<lparr>plays := Some [],
                            ledSuit := None,
                            currentTurnSeat := Some (Number (seat win)),
                            trickIndex := Some (intOrZero (trickIndex rm) + 1),
                            tensByTeam := Some tbt'\<rparr>))))"

text \<open>
  The transaction of \<^verbatim>\<open>playCard\<close> for user \<open>u\<close> at seat \<open>mySeat\<close>. A thrown value aborts the
  transaction and nothing is written: the result \<open>Inl\<close> carries no store. Otherwise the
  room and the user's hand document are written together.
\<close>

definition playCardTx :: "string \<Rightarrow> int \<Rightarrow> Store \<Rightarrow> card \<Rightarrow> error + Store" where
  "playCardTx u mySeat s c =
     (case room s of
        None \<Rightarrow> Inl TypeError
      | Some rm \<Rightarrow>
     (case handDocs s u of
        None \<Rightarrow> Inl TypeError
      | Some hand \<Rightarrow>
          (let ps = (case plays rm of None \<Rightarrow> [] | Some p \<Rightarrow> p);
               isFirstPlay = (length ps = 0);
               led = (if isFirstPlay then Some (cardSuit c) else ledSuit rm);
               idx = indexOf (visible hand) c
           in if idx < 0 then Inl (Error ''Card not in your hand'')
              else (let vis = spliceOne (visible hand) (nat idx);
                        play = \<lparr>seat = mySeat, card = c, order = int (length ps)\<rparr>;
                        newPlays = ps @ [play]
                    in case seats rm of
                         None \<Rightarrow> Inl TypeError
                       | Some ss \<Rightarrow>
                           (let totalPlayers = length ss;
                                hand' = hand\<lparr>visible := vis\<rparr>
                            in if length newPlays = totalPlayers
                               then (case finishTrick rm rm newPlays led
                                            (if trumpRevealed rm = Some True then trumpSuit rm else None) of
                                       Inl e \<Rightarrow> Inl e
                                     | Inr rm' \<Rightarrow>
                                         Inr (s\<lparr>room := Some rm', handDocs := (handDocs s)(u \<mapsto> hand')\<rparr>))
                               else Inr (s\<lparr>room := Some (rm\<lparr>plays := Some newPlays,
                                                             ledSuit := led,
                                                             currentTurnSeat :=
                                                               Some (jsRem (numOrZero (currentTurnSeat rm) + 1)
                                                                       (int totalPlayers))\<rparr>),
                                          handDocs := (handDocs s)(u \<mapsto> hand')\<rparr>))))))"

text \<open>
  \<^verbatim>\<open>playCard(card)\<close>. The first two lines return without effect and without an error
  (\<open>Inr\<close> of the unchanged store); the turn is tested on the component's snapshot
  \<^verbatim>\<open>state\<close>, not inside the transaction.
\<close>

definition playCard :: "Client \<Rightarrow> Store \<Rightarrow> card \<Rightarrow> error + Store" where
  "playCard cl s c =
     (if falsyStr (roomId cl) \<or> state cl = None \<or> falsyStr (uid cl) \<or> myHand cl = None then Inr s
      else case (state cl, uid cl) of
             (Some st, Some u) \<Rightarrow>
               (let mySeat = (case seats st of None \<Rightarrow> -1 | Some ss \<Rightarrow> indexOf ss u)
                in if currentTurnSeat st \<noteq> Some (Number mySeat) then Inr s
                   else playCardTx u mySeat s c)
           | _ \<Rightarrow> Inr s)"


text \<open>
  The default \<^verbatim>\<open>sort()\<close> compares the card strings by UTF-16 code units: first the rank
  letter, then the suit letter.
\<close>

fun rankCode :: "rank \<Rightarrow> int" where
  "rankCode Ace = 65"
| "rankCode King = 75"
| "rankCode Queen = 81"
| "rankCode Jack = 74"
| "rankCode Ten = 84"
| "rankCode Nine = 57"
| "rankCode Eight = 56"
| "rankCode Seven = 55"
| "rankCode Six = 54"
| "rankCode Five = 53"
| "rankCode Four = 52"
| "rankCode Three = 51"

fun suitCode :: "suit \<Rightarrow> int" where
  "suitCode Spades = 83"
| "suitCode Hearts = 72"
| "suitCode Diamonds = 68"
| "suitCode Clubs = 67"

definition defaultCmp :: "card \<Rightarrow> card \<Rightarrow> int" where
  "defaultCmp a b =
     (if rankCode (cardRank a) \<noteq> rankCode (cardRank b)
      then rankCode (cardRank a) - rankCode (cardRank b)
      else suitCode (cardSuit a) - suitCode (cardSuit b))"

text \<open>
  The choice of the card in \<^verbatim>\<open>revealTrumpAndPlay\<close>: the last of the sorted visible trumps,
  else the hidden card if it is a trump and \<^verbatim>\<open>useHiddenIfOnly\<close> is set. The result is
  \<^verbatim>\<open>(cardToPlay, usingHidden)\<close>.
\<close>

definition chooseReveal :: "Hand \<Rightarrow> suit option \<Rightarrow> bool \<Rightarrow> error + card \<times> bool" where
  "chooseReveal hand trump useHiddenIfOnly =
     (let visibleTrumps = filter (\<lambda>c. Some (cardSuit c) = trump) (visible hand)
      in if length visibleTrumps > 0 then Inr (last (sort_cmp defaultCmp visibleTrumps), False)
         else case hidden hand of
                Some hc \<Rightarrow>
                  if Some (cardSuit hc) = trump
                  then (if \<not> useHiddenIfOnly
                        then Inl (Error ''Only hidden trump available, pass useHiddenIfOnly=true'')
                        else Inr (hc, True))
                  else Inl (Error ''No trump to reveal with'')
              | None \<Rightarrow> Inl (Error ''No trump to reveal with''))"

text \<open>The transaction of \<^verbatim>\<open>revealTrumpAndPlay\<close> for user \<open>u\<close>.\<close>

definition revealTx :: "string \<Rightarrow> Store \<Rightarrow> bool \<Rightarrow> error + Store" where
  "revealTx u s useHiddenIfOnly =
     (case room s of
        None \<Rightarrow> Inl TypeError
      | Some rm \<Rightarrow>
     (case seats rm of
        None \<Rightarrow> Inl TypeError
      | Some ss \<Rightarrow>
          (let mySeat = indexOf ss u
           in if currentTurnSeat rm \<noteq> Some (Number mySeat) then Inl (Error ''Not your turn'')
              else (case handDocs s u of
                      None \<Rightarrow> Inl TypeError
                    | Some hand \<Rightarrow>
                        (case chooseReveal hand (trumpSuit rm) useHiddenIfOnly of
                           Inl e \<Rightarrow> Inl e
                         | Inr (cardToPlay, usingHidden) \<Rightarrow>
                             (let vis = (if \<not> usingHidden
                                         then (let idx = indexOf (visible hand) cardToPlay;
                                                   v1 = (if idx \<ge> 0 then spliceOne (visible hand) (nat idx)
                                                         else visible hand)
                                               in case hidden hand of Some hc \<Rightarrow> v1 @ [hc] | None \<Rightarrow> v1)
                                         else visible hand);
                                  ps = (case plays rm of None \<Rightarrow> [] | Some p \<Rightarrow> p);
                                  play = \<lparr>seat = mySeat, card = cardToPlay, order = int (length ps)\<rparr>;
                                  newPlays = ps @ [play];
                                  totalPlayers = length ss;
                                  led = (case ledSuit rm of
                                           Some l \<Rightarrow> Some l
                                         | None \<Rightarrow> Some (cardSuit (card (hd newPlays))));
                                  upd = rm\<lparr>plays := Some newPlays,
                                           ledSuit := led,
                                           trumpRevealed := Some True,
                                           trumpRevealedBySeat := Some mySeat,
                                           currentTurnSeat :=
                                             (if length newPlays = totalPlayers then currentTurnSeat rm
                                              else Some (jsRem (numOrZero (currentTurnSeat rm) + 1)
                                                          (int totalPlayers)))\<rparr>;
                                  hand' = hand\<lparr>visible := sort_cmp defaultCmp vis, hidden := None\<rparr>
                              in if length newPlays = totalPlayers
                                 then (case finishTrick rm upd newPlays led (trumpSuit rm) of
                                         Inl e \<Rightarrow> Inl e
                                       | Inr rm' \<Rightarrow>
                                           Inr (s\<lparr>room := Some rm', handDocs := (handDocs s)(u \<mapsto> hand')\<rparr>))
                                 else Inr (s\<lparr>room := Some upd,
                                            handDocs := (handDocs s)(u \<mapsto> hand')\<rparr>)))))))"

text \<open>
  \<^verbatim>\<open>revealTrumpAndPlay(useHiddenIfOnly)\<close>. The tests before the transaction return without
  effect and without an error; they read the component's snapshots.
\<close>

definition revealTrumpAndPlay :: "Client \<Rightarrow> Store \<Rightarrow> bool \<Rightarrow> error + Store" where
  "revealTrumpAndPlay cl s useHiddenIfOnly =
     (if falsyStr (roomId cl) \<or> state cl = None \<or> falsyStr (uid cl) \<or> myHand cl = None then Inr s
      else case (state cl, uid cl, myHand cl) of
             (Some st, Some u, Some mh) \<Rightarrow>
               (let led = ledSuit st
                in if led = None \<or> trumpRevealed st = Some True then Inr s
                   else (let legal = legalPlays (visible mh) led;
                             haveLed = list_ex (\<lambda>c. Some (cardSuit c) = led) legal
                         in if haveLed then Inr s
                            else revealTx u s useHiddenIfOnly))
           | _ \<Rightarrow> Inr s)"

text \<open>The hand document that the reveal transaction writes when \<open>c\<close> is the card chosen.\<close>

definition revealedHand :: "Hand \<Rightarrow> card \<Rightarrow> bool \<Rightarrow> Hand" where
  "revealedHand hand c usingHidden =
     \<lparr>visible = sort_cmp defaultCmp
                  (if \<not> usingHidden
                   then (let idx = indexOf (visible hand) c;
                             v1 = (if idx \<ge> 0 then spliceOne (visible hand) (nat idx)
                                   else visible hand)
                         in case hidden hand of Some hc \<Rightarrow> v1 @ [hc] | None \<Rightarrow> v1)
                   else visible hand),
      hidden = None\<rparr>"

text \<open>A hand holds a trump: a visible card of the trump suit, or its own hidden card of the
  trump suit.\<close>

definition holdsTrump :: "Hand \<Rightarrow> suit option \<Rightarrow> bool" where
  "holdsTrump h trump \<longleftrightarrow>
     list_ex (\<lambda>c. Some (cardSuit c) = trump) (visible h) \<or>
     (case hidden h of Some hc \<Rightarrow> Some (cardSuit hc) = trump | None \<Rightarrow> False)"

text \<open>The component's snapshot shows the user's seat as the current turn seat: the two tests
  at the head of \<^verbatim>\<open>playCard\<close> pass.\<close>

definition myTurnBySnapshot :: "Client \<Rightarrow> bool" where
  "myTurnBySnapshot cl \<longleftrightarrow>
     \<not> falsyStr (roomId cl) \<and> \<not> falsyStr (uid cl) \<and> myHand cl \<noteq> None \<and>
     (case (state cl, uid cl) of
        (Some st, Some u) \<Rightarrow>
          currentTurnSeat st = Some (Number (case seats st of None \<Rightarrow> -1 | Some ss \<Rightarrow> indexOf ss u))
      | _ \<Rightarrow> False)"

text \<open>The tests at the head of \<^verbatim>\<open>revealTrumpAndPlay\<close> pass: by the snapshots a suit is led,
  trump is not revealed and the user's visible hand has no card of the led suit.\<close>

definition mayRevealBySnapshot :: "Client \<Rightarrow> bool" where
  "mayRevealBySnapshot cl \<longleftrightarrow>
     \<not> falsyStr (roomId cl) \<and> \<not> falsyStr (uid cl) \<and>
     (case (state cl, myHand cl) of
        (Some st, Some mh) \<Rightarrow>
          ledSuit st \<noteq> None \<and> trumpRevealed st \<noteq> Some True \<and>
          \<not> list_ex (\<lambda>c. Some (cardSuit c) = ledSuit st) (visible mh)
      | _ \<Rightarrow> False)"

text \<open>
  The game after a deal as a sequence of submissions by any clients. A submission that throws
  aborts its transaction and leaves the store as it was.
\<close>

datatype action = PlayCard Client card | RevealTrump Client bool

fun applyAction :: "Store \<Rightarrow> action \<Rightarrow> Store" where
  "applyAction s (PlayCard cl c) = (case playCard cl s c of Inl e \<Rightarrow> s | Inr s' \<Rightarrow> s')"
| "applyAction s (RevealTrump cl b) = (case revealTrumpAndPlay cl s b of Inl e \<Rightarrow> s | Inr s' \<Rightarrow> s')"

definition runActions :: "Store \<Rightarrow> action list \<Rightarrow> Store" where
  "runActions s acts = foldl applyAction s acts"

subsection \<open>A table of three\<close>

text \<open>
  Seats 0, 1, 2 are the users \<open>a\<close>, \<open>b\<close>, \<open>c\<close>. Seat 0 is the hider and has hidden the Three
  of Spades, so Spades is the trump suit, not yet revealed. Seat 0 has led the Five of Hearts
  and it is the turn of seat 1.
\<close>

definition tableRoom :: RoomState where
  "tableRoom =
     \<lparr>seats = Some [''a'', ''b'', ''c''],
      teamMap = Some [''A'', ''B'', ''A''],
      trumpSuit = Some Spades,
      trumpRevealed = Some False,
      trumpRevealedBySeat = None,
      currentTurnSeat = Some (Number 1),
      ledSuit = Some Hearts,
      plays = Some [\<lparr>seat = 0, card = Card Five Hearts, order = 0\<rparr>],
      trickIndex = Some 0,
      tensByTeam = Some [''A'' \<mapsto> 0, ''B'' \<mapsto> 0]\<rparr>"

definition hiderDoc :: Hand where
  "hiderDoc = \<lparr>visible = [Card King Clubs], hidden = Some (Card Three Spades)\<rparr>"

text \<open>Seat 1 holding a card of the led suit.\<close>

definition followerDoc :: Hand where
  "followerDoc = \<lparr>visible = [Card King Hearts, Card Four Diamonds], hidden = None\<rparr>"

text \<open>Seat 1 void in the led suit and holding a trump.\<close>

definition voidDoc :: Hand where
  "voidDoc = \<lparr>visible = [Card Ace Spades, Card Four Diamonds], hidden = None\<rparr>"

text \<open>Seat 1 void in the led suit and holding no trump.\<close>

definition noTrumpDoc :: Hand where
  "noTrumpDoc = \<lparr>visible = [Card Four Diamonds, Card Six Clubs], hidden = None\<rparr>"

definition thirdDoc :: Hand where
  "thirdDoc = \<lparr>visible = [Card Nine Hearts, Card Six Clubs], hidden = None\<rparr>"

definition tableStore :: "Hand \<Rightarrow> Store" where
  "tableStore h = \<lparr>room = Some tableRoom,
                    handDocs = [''a'' \<mapsto> hiderDoc, ''b'' \<mapsto> h, ''c'' \<mapsto> thirdDoc]\<rparr>"

text \<open>The component of user \<open>b\<close> with up-to-date snapshots.\<close>

definition tableClient :: "Hand \<Rightarrow> Client" where
  "tableClient h = \<lparr>roomId = Some ''r'', uid = Some ''b'', state = Some tableRoom, myHand = Some h\<rparr>"

text \<open>
  The same table one trick later: seat 1 has led the Five of Hearts, seat 2 has followed, and
  it is the turn of the hider at seat 0, who is void in Hearts.
\<close>

definition hiderTurnRoom :: RoomState where
  "hiderTurnRoom =
     tableRoom\<lparr>currentTurnSeat := Some (Number 0),
               plays := Some [\<lparr>seat = 1, card = Card Five Hearts, order = 0\<rparr>,
                              \<lparr>seat = 2, card = Card Nine Hearts, order = 1\<rparr>]\<rparr>"

text \<open>The hider holding a visible trump beside the hidden card.\<close>

definition hiderTrumpDoc :: Hand where
  "hiderTrumpDoc = \<lparr>visible = [Card King Clubs, Card Seven Spades], hidden = Some (Card Three Spades)\<rparr>"

definition hiderTurnStore :: "Hand \<Rightarrow> Store" where
  "hiderTurnStore h = \<lparr>room = Some hiderTurnRoom,
                       handDocs = [''a'' \<mapsto> h, ''b'' \<mapsto> voidDoc, ''c'' \<mapsto> thirdDoc]\<rparr>"

definition hiderClient :: "Hand \<Rightarrow> Client" where
  "hiderClient h = \<lparr>roomId = Some ''r'', uid = Some ''a'', state = Some hiderTurnRoom, myHand = Some h\<rparr>"

text \<open>\<^verbatim>\<open>handFinished(hands)\<close> (src/logic/mindi.ts), the test that \<^verbatim>\<open>hostEndHandIfDone\<close> repeats
  inline: every visible hand is empty and no hidden card remains.\<close>

definition handFinished :: "Hand list \<Rightarrow> bool" where
  "handFinished hands = list_all (\<lambda>h. length (visible h) = 0 \<and> hidden h = None) hands"

text \<open>The component of user \<open>u\<close> whose snapshots are the documents of the store.\<close>

definition upToDate :: "string \<Rightarrow> Store \<Rightarrow> Client" where
  "upToDate u s = \<lparr>roomId = Some ''r'', uid = Some u, state = room s, myHand = handDocs s u\<rparr>"

text \<open>A submission by a user whose component is up to date.\<close>

datatype move = Plays card | Reveals bool

fun submit :: "Store \<Rightarrow> string \<times> move \<Rightarrow> Store" where
  "submit s (u, Plays c) = applyAction s (PlayCard (upToDate u s) c)"
| "submit s (u, Reveals b) = applyAction s (RevealTrump (upToDate u s) b)"

text \<open>
  The table of three after seat 1 has followed with the King of Hearts and the turn has passed
  to seat 2, while the component of user \<open>b\<close> still holds the snapshots from before that play.
\<close>

definition movedOnStore :: Store where
  "movedOnStore =
     \<lparr>room = Some (tableRoom\<lparr>currentTurnSeat := Some (Number 2),
                                plays := Some [\<lparr>seat = 0, card = Card Five Hearts, order = 0\<rparr>,
                                               \<lparr>seat = 1, card = Card King Hearts, order = 1\<rparr>]\<rparr>),
      handDocs = [''a'' \<mapsto> hiderDoc,
                  ''b'' \<mapsto> \<lparr>visible = [Card Four Diamonds], hidden = None\<rparr>,
                  ''c'' \<mapsto> thirdDoc]\<rparr>"

text \<open>
  The table of three played on from seat 1's turn by up-to-date components: seat 1 reveals with
  a visible trump, seat 2 follows with the Nine of Hearts and the trick goes to seat 1; seat 1
  leads the Four of Diamonds, seat 2 plays the Six of Clubs, and it is the turn of seat 0.
\<close>

definition lockedStore :: Store where
  "lockedStore =
     foldl submit (tableStore voidDoc)
       [(''b'', Reveals False), (''c'', Plays (Card Nine Hearts)),
        (''b'', Plays (Card Four Diamonds)), (''c'', Plays (Card Six Clubs))]"

section \<open>Properties of the sort\<close>

lemma mset_insort_cmp: "mset (insort_cmp cmp x xs) = add_mset x (mset xs)"
  by (induction xs) auto

lemma mset_sort_cmp: "mset (sort_cmp cmp xs) = mset xs"
  by (induction xs) (auto simp: sort_cmp_def mset_insort_cmp)

lemma set_sort_cmp: "set (sort_cmp cmp xs) = set xs"
  using mset_sort_cmp [of cmp xs] by (metis set_mset_mset)

lemma sort_cmp_Nil_iff: "sort_cmp cmp xs = [] \<longleftrightarrow> xs = []"
  using mset_sort_cmp [of cmp xs] by (metis mset_zero_iff)

lemma sorted_insort_cmp:
  assumes "consistent_on A cmp" "x \<in> A" "set xs \<subseteq> A"
    and "sorted_wrt (\<lambda>a b. cmp a b \<le> 0) xs"
  shows "sorted_wrt (\<lambda>a b. cmp a b \<le> 0) (insort_cmp cmp x xs)"
  using assms(3,4)
proof (induction xs)
  case Nil
  then show ?case by simp
next
  case (Cons y ys)
  show ?case
  proof (cases "cmp x y \<le> 0")
    case True
    have "cmp x z \<le> 0" if "z \<in> set ys" for z
    proof -
      have "cmp y z \<le> 0" using Cons.prems(2) that by simp
      moreover have "y \<in> A" "z \<in> A" using Cons.prems(1) that by auto
      ultimately show ?thesis
        using assms(1,2) True unfolding consistent_on_def by blast
    qed
    with True Cons.prems(2) show ?thesis by simp
  next
    case False
    have yx: "cmp y x \<le> 0"
      using assms(1,2) Cons.prems(1) False unfolding consistent_on_def by auto
    have "sorted_wrt (\<lambda>a b. cmp a b \<le> 0) (insort_cmp cmp x ys)"
      using Cons by simp
    moreover have "set (insort_cmp cmp x ys) = insert x (set ys)"
      using mset_insort_cmp [of cmp x ys] by (metis set_mset_add_mset_insert set_mset_mset)
    ultimately show ?thesis
      using False yx Cons.prems(2) by simp
  qed
qed

lemma sorted_sort_cmp:
  "consistent_on A cmp \<Longrightarrow> set xs \<subseteq> A \<Longrightarrow> sorted_wrt (\<lambda>a b. cmp a b \<le> 0) (sort_cmp cmp xs)"
proof (induction xs)
  case Nil
  then show ?case by (simp add: sort_cmp_def)
next
  case (Cons x xs)
  have "sorted_wrt (\<lambda>a b. cmp a b \<le> 0) (insort_cmp cmp x (sort_cmp cmp xs))"
    using Cons by (intro sorted_insort_cmp [of A]) (auto simp: set_sort_cmp)
  then show ?case by (simp add: sort_cmp_def)
qed

lemma sorted_wrt_last:
  "sorted_wrt P xs \<Longrightarrow> x \<in> set xs \<Longrightarrow> x = last xs \<or> P x (last xs)"
  by (induction xs) auto

section \<open>The trick winner\<close>

lemma trickCmp_same_suit:
  "cardSuit (card a) = cardSuit (card b) \<Longrightarrow>
   trickCmp a b \<le> 0 \<longleftrightarrow>
     strength a < strength b \<or> (strength a = strength b \<and> order a \<le> order b)"
  by (auto simp: trickCmp_def strength_def Let_def)

lemma consistent_trickCmp: "consistent_on {p. Some (cardSuit (card p)) = s} trickCmp"
  unfolding consistent_on_def
proof (intro conjI ballI impI)
  fix a b :: Play assume "a \<in> {p. Some (cardSuit (card p)) = s}" "b \<in> {p. Some (cardSuit (card p)) = s}"
  then have "cardSuit (card a) = cardSuit (card b)" by auto
  then show "trickCmp a b \<le> 0 \<or> trickCmp b a \<le> 0"
    by (auto simp: trickCmp_same_suit)
next
  fix a b c :: Play
  assume "a \<in> {p. Some (cardSuit (card p)) = s}" "b \<in> {p. Some (cardSuit (card p)) = s}"
    "c \<in> {p. Some (cardSuit (card p)) = s}"
  then have eq: "cardSuit (card a) = cardSuit (card b)" "cardSuit (card b) = cardSuit (card c)"
    "cardSuit (card a) = cardSuit (card c)" by auto
  assume "trickCmp a b \<le> 0" "trickCmp b c \<le> 0"
  then show "trickCmp a c \<le> 0"
    using eq by (auto simp: trickCmp_same_suit)
qed

text \<open>The last element of the sorted array of ps of one suit is a strongest play, and
  among the strongest ps one of greatest order.\<close>

lemma winner_of_suit:
  fixes ps :: "Play list" and s :: "suit option"
  defines "cs \<equiv> filter (\<lambda>p. Some (cardSuit (card p)) = s) ps"
  assumes ne: "cs \<noteq> []"
  shows "last (sort_cmp trickCmp cs) \<in> set cs"
    and "\<forall>p\<in>set cs. strength p < strength (last (sort_cmp trickCmp cs)) \<or>
           (strength p = strength (last (sort_cmp trickCmp cs)) \<and>
            order p \<le> order (last (sort_cmp trickCmp cs)))"
proof -
  let ?w = "last (sort_cmp trickCmp cs)"
  have sub: "set cs \<subseteq> {p. Some (cardSuit (card p)) = s}" by (auto simp: cs_def)
  have nn: "sort_cmp trickCmp cs \<noteq> []" using ne by (simp add: sort_cmp_Nil_iff)
  then have "?w \<in> set (sort_cmp trickCmp cs)" by simp
  then show w: "?w \<in> set cs" by (simp add: set_sort_cmp)
  have srt: "sorted_wrt (\<lambda>a b. trickCmp a b \<le> 0) (sort_cmp trickCmp cs)"
    using sorted_sort_cmp [OF consistent_trickCmp sub] .
  show "\<forall>p\<in>set cs. strength p < strength ?w \<or>
           (strength p = strength ?w \<and> order p \<le> order ?w)"
  proof
    fix p assume p: "p \<in> set cs"
    then have "p \<in> set (sort_cmp trickCmp cs)" by (simp add: set_sort_cmp)
    from sorted_wrt_last [OF srt this] have "p = ?w \<or> trickCmp p ?w \<le> 0" .
    moreover have "cardSuit (card p) = cardSuit (card ?w)" using p w sub by auto
    ultimately show "strength p < strength ?w \<or>
           (strength p = strength ?w \<and> order p \<le> order ?w)"
      using trickCmp_same_suit [of p ?w] by auto
  qed
qed

lemma evaluateTrickWinner_eq:
  "evaluateTrickWinner ps led trump =
     (let cs = (if trump \<noteq> None \<and> (\<exists>p\<in>set ps. Some (cardSuit (card p)) = trump)
                then filter (\<lambda>p. Some (cardSuit (card p)) = trump) ps
                else filter (\<lambda>p. Some (cardSuit (card p)) = led) ps)
      in if cs = [] then None else Some (last (sort_cmp trickCmp cs)))"
  by (cases trump) (auto simp: evaluateTrickWinner_def Let_def list_ex_iff sort_cmp_Nil_iff)

text \<open>
  C1. For every trick in which some play contends, \<^verbatim>\<open>evaluateTrickWinner\<close> returns a play of
  the contender set (the trump ps if a trump suit is active and was played, the ps of
  the led suit otherwise); no contender is stronger than it, and no contender of the same
  strength has a higher order.
\<close>

theorem evaluateTrickWinner_strongest_latest:
  assumes "contenderSet ps led trump \<noteq> {}"
  shows "\<exists>w. evaluateTrickWinner ps led trump = Some w \<and>
           w \<in> contenderSet ps led trump \<and>
           (\<forall>p\<in>contenderSet ps led trump.
              strength p < strength w \<or> (strength p = strength w \<and> order p \<le> order w))"
proof (cases "trump \<noteq> None \<and> (\<exists>p\<in>set ps. Some (cardSuit (card p)) = trump)")
  case True
  let ?cs = "filter (\<lambda>p. Some (cardSuit (card p)) = trump) ps"
  have cset: "contenderSet ps led trump = set ?cs"
    using True by (auto simp: contenderSet_def)
  have ne: "?cs \<noteq> []" using assms unfolding cset by (metis set_empty)
  have "evaluateTrickWinner ps led trump = Some (last (sort_cmp trickCmp ?cs))"
    using True ne by (auto simp: evaluateTrickWinner_eq Let_def)
  then show ?thesis
    using winner_of_suit [OF ne] cset by simp
next
  case False
  let ?cs = "filter (\<lambda>p. Some (cardSuit (card p)) = led) ps"
  have cset: "contenderSet ps led trump = set ?cs"
    using False by (auto simp: contenderSet_def)
  have ne: "?cs \<noteq> []" using assms unfolding cset by (metis set_empty)
  have "evaluateTrickWinner ps led trump = Some (last (sort_cmp trickCmp ?cs))"
    using False ne by (auto simp: evaluateTrickWinner_eq Let_def)
  then show ?thesis
    using winner_of_suit [OF ne] cset by simp
qed

theorem evaluateTrickWinner_strongest_latest_witness:
  "contenderSet [\<lparr>seat = 0, card = Card Ace Spades, order = 0\<rparr>,
                 \<lparr>seat = 1, card = Card Three Hearts, order = 1\<rparr>,
                 \<lparr>seat = 2, card = Card Ace Spades, order = 2\<rparr>] (Some Spades) None \<noteq> {} \<and>
   evaluateTrickWinner [\<lparr>seat = 0, card = Card Ace Spades, order = 0\<rparr>,
                        \<lparr>seat = 1, card = Card Three Hearts, order = 1\<rparr>,
                        \<lparr>seat = 2, card = Card Ace Spades, order = 2\<rparr>] (Some Spades) None
     = Some \<lparr>seat = 2, card = Card Ace Spades, order = 2\<rparr>"
proof -
  let ?p0 = "\<lparr>seat = 0, card = Card Ace Spades, order = 0\<rparr>"
  let ?p1 = "\<lparr>seat = 1, card = Card Three Hearts, order = 1\<rparr>"
  let ?p2 = "\<lparr>seat = 2, card = Card Ace Spades, order = 2\<rparr>"
  have cs: "contenderSet [?p0, ?p1, ?p2] (Some Spades) None = {?p0, ?p2}"
    by (auto simp: contenderSet_def)
  then have ne: "contenderSet [?p0, ?p1, ?p2] (Some Spades) None \<noteq> {}" by simp
  from evaluateTrickWinner_strongest_latest [OF ne] obtain w where
    w: "evaluateTrickWinner [?p0, ?p1, ?p2] (Some Spades) None = Some w"
      "w \<in> {?p0, ?p2}"
      "\<forall>p\<in>{?p0, ?p2}. strength p < strength w \<or> (strength p = strength w \<and> order p \<le> order w)"
    unfolding cs by blast
  from w(3) have "strength ?p2 < strength w \<or> (strength ?p2 = strength w \<and> order ?p2 \<le> order w)"
    by blast
  with w(2) have "w = ?p2" by (auto simp: strength_def)
  with w(1) ne show ?thesis by simp
qed

text \<open>
  C10. \<^verbatim>\<open>evaluateTrickWinner\<close> returns one of its input ps exactly when some play is of
  the led suit or, with a trump suit supplied, some play is of the trump suit; when no play
  is of either suit the contender array is empty and indexing it gives no play
  (\<^verbatim>\<open>undefined\<close>, here \<open>None\<close>).
\<close>

theorem evaluateTrickWinner_defined_iff_contender:
  "((\<exists>p\<in>set ps. Some (cardSuit (card p)) = led) \<or>
    (trump \<noteq> None \<and> (\<exists>p\<in>set ps. Some (cardSuit (card p)) = trump))
      \<longrightarrow> (\<exists>w\<in>set ps. evaluateTrickWinner ps led trump = Some w)) \<and>
   (\<not> ((\<exists>p\<in>set ps. Some (cardSuit (card p)) = led) \<or>
        (trump \<noteq> None \<and> (\<exists>p\<in>set ps. Some (cardSuit (card p)) = trump)))
      \<longrightarrow> evaluateTrickWinner ps led trump = None)"
proof -
  let ?T = "filter (\<lambda>p. Some (cardSuit (card p)) = trump) ps"
  let ?L = "filter (\<lambda>p. Some (cardSuit (card p)) = led) ps"
  have pick: "cs \<noteq> [] \<Longrightarrow> set cs \<subseteq> set ps \<Longrightarrow> last (sort_cmp trickCmp cs) \<in> set ps"
    for cs :: "Play list"
    using set_sort_cmp [of trickCmp cs] sort_cmp_Nil_iff [of trickCmp cs]
    by (metis last_in_set subsetD)
  show ?thesis
  proof (cases "trump \<noteq> None \<and> (\<exists>p\<in>set ps. Some (cardSuit (card p)) = trump)")
    case True
    then have ne: "?T \<noteq> []" by (auto simp: filter_empty_conv)
    then have "evaluateTrickWinner ps led trump = Some (last (sort_cmp trickCmp ?T))"
      using True by (auto simp: evaluateTrickWinner_eq Let_def)
    moreover have "last (sort_cmp trickCmp ?T) \<in> set ps"
      using pick [OF ne] by simp
    ultimately show ?thesis using True by auto
  next
    case False
    show ?thesis
    proof (cases "?L = []")
      case True
      then have "evaluateTrickWinner ps led trump = None"
        using False by (auto simp: evaluateTrickWinner_eq Let_def)
      moreover have "\<not> (\<exists>p\<in>set ps. Some (cardSuit (card p)) = led)"
        using True by (auto simp: filter_empty_conv)
      ultimately show ?thesis using False by auto
    next
      case ne: False
      then have "evaluateTrickWinner ps led trump = Some (last (sort_cmp trickCmp ?L))"
        using False by (auto simp: evaluateTrickWinner_eq Let_def)
      moreover have "last (sort_cmp trickCmp ?L) \<in> set ps"
        using pick [OF ne] by simp
      moreover have "\<exists>p\<in>set ps. Some (cardSuit (card p)) = led"
        using ne by (auto simp: filter_empty_conv)
      ultimately show ?thesis by auto
    qed
  qed
qed

theorem evaluateTrickWinner_defined_iff_contender_witness:
  "evaluateTrickWinner [\<lparr>seat = 0, card = Card Ten Spades, order = 0\<rparr>,
                        \<lparr>seat = 1, card = Card King Spades, order = 1\<rparr>] (Some Spades) None
     = Some \<lparr>seat = 1, card = Card King Spades, order = 1\<rparr> \<and>
   evaluateTrickWinner [\<lparr>seat = 0, card = Card Ten Spades, order = 0\<rparr>,
                        \<lparr>seat = 1, card = Card King Spades, order = 1\<rparr>] (Some Hearts) (Some Clubs)
     = None"
proof -
  let ?ps = "[\<lparr>seat = 0, card = Card Ten Spades, order = 0\<rparr>,
              \<lparr>seat = 1, card = Card King Spades, order = 1\<rparr>]"
  have "evaluateTrickWinner ?ps (Some Hearts) (Some Clubs) = None"
    using evaluateTrickWinner_defined_iff_contender [of ?ps "Some Hearts" "Some Clubs"] by simp
  moreover have "\<exists>w\<in>set ?ps. evaluateTrickWinner ?ps (Some Spades) None = Some w"
    using evaluateTrickWinner_defined_iff_contender [of ?ps "Some Spades" None] by simp
  moreover have "evaluateTrickWinner ?ps (Some Spades) None \<noteq> Some \<lparr>seat = 0, card = Card Ten Spades, order = 0\<rparr>"
    by (simp add: evaluateTrickWinner_def sort_cmp_def trickCmp_def)
  ultimately show ?thesis by auto
qed

section \<open>The shuffle\<close>

lemma Rep_draw_bounds: "0 \<le> Rep_draw r" "Rep_draw r < 1"
  using Rep_draw [of r] by auto

lemma floorMul_less: "0 < n \<Longrightarrow> floorMul r n < n"
proof -
  assume n: "0 < n"
  have lo: "0 \<le> Rep_draw r * real n"
    using Rep_draw_bounds(1) [of r] by simp
  have "Rep_draw r * real n < 1 * real n"
    using Rep_draw_bounds(2) [of r] n by (intro mult_strict_right_mono) auto
  then have "Rep_draw r * real n < real_of_int (int n)" by simp
  then have "\<lfloor>Rep_draw r * real n\<rfloor> < int n" by (simp only: floor_less_iff)
  moreover have "0 \<le> \<lfloor>Rep_draw r * real n\<rfloor>" using lo by simp
  ultimately show ?thesis unfolding floorMul_def by linarith
qed

lemma floorMul_le: "floorMul r (Suc i) \<le> i"
  using floorMul_less [of "Suc i" r] by simp

lemma floorMul_zero [simp]: "floorMul draw_zero n = 0"
  by (simp add: floorMul_def draw_zero.rep_eq)

lemma floorMul_high: "n \<le> 100 \<Longrightarrow> floorMul draw_high n = n - 1"
proof (cases n)
  case 0
  then show ?thesis by (simp add: floorMul_def)
next
  case (Suc m)
  assume "n \<le> 100"
  then have m: "m \<le> 99" using Suc by simp
  have "\<lfloor>99 / 100 * real (Suc m)\<rfloor> = int m"
  proof (rule floor_unique)
    show "real_of_int (int m) \<le> 99 / 100 * real (Suc m)" using m by simp
    show "99 / 100 * real (Suc m) < real_of_int (int m) + 1" by simp
  qed
  then show ?thesis using Suc by (simp add: floorMul_def draw_high.rep_eq)
qed

lemma length_shuffleLoop: "length (shuffleLoop rng k i a) = length a"
  by (induction i arbitrary: k a) (auto simp: Let_def)

lemma mset_shuffleLoop: "i < length a \<Longrightarrow> mset (shuffleLoop rng k i a) = mset a"
proof (induction i arbitrary: k a)
  case 0
  then show ?case by simp
next
  case (Suc i)
  let ?j = "floorMul (rng k) (Suc i + 1)"
  have j: "?j < length a" using floorMul_le [of "rng k" "Suc i"] Suc.prems by simp
  have "mset (a[Suc i := a ! ?j, ?j := a ! Suc i]) = mset a"
    using Suc.prems j by (simp add: mset_swap)
  moreover have "i < length (a[Suc i := a ! ?j, ?j := a ! Suc i])" using Suc.prems by simp
  ultimately show ?case using Suc.IH by (simp add: Let_def)
qed

lemma mset_shuffle: "mset (shuffle sr arr seed) = mset arr"
proof (cases arr)
  case Nil
  then show ?thesis by (simp add: shuffle_def)
next
  case (Cons x xs)
  then have "length arr - 1 < length arr" by simp
  then show ?thesis by (simp add: shuffle_def mset_shuffleLoop)
qed

lemma length_shuffle: "length (shuffle sr arr seed) = length arr"
  by (simp add: shuffle_def length_shuffleLoop)

lemma set_shuffle: "set (shuffle sr arr seed) = set arr"
  using mset_shuffle [of sr arr seed] by (metis set_mset_mset)

text \<open>With every draw at \<open>99/100\<close> and at most 100 elements, \<open>j = i\<close> in every round and the
  array stays as it is.\<close>

lemma shuffleLoop_high: "i < 100 \<Longrightarrow> shuffleLoop (\<lambda>k. draw_high) k i a = a"
  by (induction i arbitrary: k a) (auto simp: Let_def floorMul_high)

lemma shuffle_high: "length arr \<le> 100 \<Longrightarrow> shuffle (\<lambda>sd k. draw_high) arr seed = arr"
  by (simp add: shuffle_def shuffleLoop_high)

lemma shuffle_store_contents:
  "arr < length st \<Longrightarrow>
   fst (shuffle_store sr st arr seed) ! snd (shuffle_store sr st arr seed) = shuffle sr (st ! arr) seed"
  by (simp add: shuffle_store_def shuffle_def Let_def nth_append)

lemma shuffle_store_keeps:
  "r < length st \<Longrightarrow> fst (shuffle_store sr st arr seed) ! r = st ! r"
  by (simp add: shuffle_store_def Let_def nth_append)

text \<open>
  C8. On a store of arrays, \<^verbatim>\<open>shuffle\<close> returns a new array whose contents are a permutation
  of the input's, it leaves every array of the store, the input among them, as it was, and its
  output is a function of the input's contents and the seed alone: two calls on equal inputs
  with the same seed give equal outputs.
\<close>

theorem shuffle_permutation_pure_deterministic:
  assumes "arr < length st" and "arr' < length st'" and "st' ! arr' = st ! arr"
  shows "mset (fst (shuffle_store sr st arr seed) ! snd (shuffle_store sr st arr seed)) = mset (st ! arr) \<and>
         (\<forall>r<length st. fst (shuffle_store sr st arr seed) ! r = st ! r) \<and>
         fst (shuffle_store sr st' arr' seed) ! snd (shuffle_store sr st' arr' seed)
           = fst (shuffle_store sr st arr seed) ! snd (shuffle_store sr st arr seed) \<and>
         fst (shuffle_store sr st arr seed) ! snd (shuffle_store sr st arr seed) = shuffle sr (st ! arr) seed"
proof -
  have "mset (fst (shuffle_store sr st arr seed) ! snd (shuffle_store sr st arr seed)) = mset (st ! arr)"
    using assms(1) by (simp add: shuffle_store_contents mset_shuffle)
  moreover have "\<forall>r<length st. fst (shuffle_store sr st arr seed) ! r = st ! r"
    by (simp add: shuffle_store_keeps)
  moreover have "fst (shuffle_store sr st' arr' seed) ! snd (shuffle_store sr st' arr' seed)
           = fst (shuffle_store sr st arr seed) ! snd (shuffle_store sr st arr seed)"
    using assms by (simp add: shuffle_store_contents)
  ultimately show ?thesis using assms(1) by (simp add: shuffle_store_contents)
qed

theorem shuffle_permutation_pure_deterministic_witness:
  "shuffle_store (\<lambda>sd k. draw_zero) [[1, 2, 3 :: nat]] 0 ''seed'' = ([[1, 2, 3], [2, 3, 1]], 1) \<and>
   shuffle_store (\<lambda>sd k. draw_zero) [[7], [1, 2, 3 :: nat]] 1 ''seed'' = ([[7], [1, 2, 3], [2, 3, 1]], 2) \<and>
   shuffle (\<lambda>sd k. draw_zero) [1, 2, 3 :: nat] ''seed'' = [2, 3, 1] \<and>
   mset [2, 3, 1 :: nat] = mset [1, 2, 3]"
proof -
  have e1: "shuffle_store (\<lambda>sd k. draw_zero) [[1, 2, 3 :: nat]] 0 ''seed'' = ([[1, 2, 3], [2, 3, 1]], 1)"
    by (simp add: shuffle_store_def Let_def numeral_3_eq_3)
  have e2: "shuffle_store (\<lambda>sd k. draw_zero) [[7], [1, 2, 3 :: nat]] 1 ''seed'' = ([[7], [1, 2, 3], [2, 3, 1]], 2)"
    by (simp add: shuffle_store_def Let_def numeral_3_eq_3)
  have h: "(0::nat) < length [[1, 2, 3 :: nat]]" "(1::nat) < length [[7], [1, 2, 3 :: nat]]"
    "[[7], [1, 2, 3 :: nat]] ! 1 = [[1, 2, 3]] ! 0" by simp_all
  from shuffle_permutation_pure_deterministic [OF h, of "\<lambda>sd k. draw_zero" "''seed''"]
  have "fst (shuffle_store (\<lambda>sd k. draw_zero) [[1, 2, 3 :: nat]] 0 ''seed'')
          ! snd (shuffle_store (\<lambda>sd k. draw_zero) [[1, 2, 3 :: nat]] 0 ''seed'')
        = shuffle (\<lambda>sd k. draw_zero) ([[1, 2, 3 :: nat]] ! 0) ''seed''"
    by blast
  then have "shuffle (\<lambda>sd k. draw_zero) [1, 2, 3 :: nat] ''seed'' = [2, 3, 1]"
    unfolding e1 by simp
  then show ?thesis using e1 e2 by simp
qed

section \<open>The deal\<close>

lemma length_buildSingleDeckNoTwos: "length buildSingleDeckNoTwos = 48"
  by (simp add: buildSingleDeckNoTwos_def RANKS_def SUITS_def)

lemma length_buildDecksNoTwos:
  "length (buildDecksNoTwos dc) = (if dc = OneDeck then 48 else 96)"
  by (simp add: buildDecksNoTwos_def Let_def length_buildSingleDeckNoTwos)

lemma cardsPerPlayer_eq:
  "0 < players \<Longrightarrow> cardsPerPlayer players dc = enat (length (buildDecksNoTwos dc) div players)"
  by (cases dc) (auto simp: cardsPerPlayer_def Let_def length_buildDecksNoTwos numeral_eq_enat)

lemma dealt_le_deck: "dealtCount players dc \<le> length (buildDecksNoTwos dc)"
  by (simp add: dealtCount_def)

lemma dealtCount_dvd:
  "players dvd length (buildDecksNoTwos dc) \<Longrightarrow> dealtCount players dc = length (buildDecksNoTwos dc)"
  by (simp add: dealtCount_def)

lemma dealtTo_0: "dealtTo deck players leader 0 s = []"
  by (simp add: dealtTo_def)

lemma dealtTo_Suc:
  "dealtTo deck players leader (Suc n) s =
     dealtTo deck players leader n s @ (if (leader + n) mod players = s then [deck ! n] else [])"
  by (simp add: dealtTo_def)

lemma dealLoop_dealtTo:
  assumes "0 < players"
  shows "st = (leader + i) mod players \<Longrightarrow>
         raw = map (dealtTo deck players leader i) [0..<players] \<Longrightarrow>
         dealLoop deck players m i st raw = Inr (map (dealtTo deck players leader (i + m)) [0..<players])"
proof (induction m arbitrary: i st raw)
  case 0
  then show ?case by simp
next
  case (Suc m)
  have st: "st < players" using Suc.prems(1) assms by simp
  have next_st: "(st + 1) mod players = (leader + Suc i) mod players"
    using Suc.prems(1) by (simp add: mod_Suc_eq)
  have upd: "raw[st := raw ! st @ [deck ! i]] = map (dealtTo deck players leader (Suc i)) [0..<players]"
  proof (rule nth_equalityI)
    show "length (raw[st := raw ! st @ [deck ! i]]) = length (map (dealtTo deck players leader (Suc i)) [0..<players])"
      using Suc.prems(2) by simp
  next
    fix q assume "q < length (raw[st := raw ! st @ [deck ! i]])"
    then have q: "q < players" using Suc.prems(2) by simp
    show "raw[st := raw ! st @ [deck ! i]] ! q = map (dealtTo deck players leader (Suc i)) [0..<players] ! q"
      using q st Suc.prems by (cases "q = st") (auto simp: dealtTo_Suc)
  qed
  have "dealLoop deck players (Suc m) i st raw =
        dealLoop deck players m (Suc i) ((st + 1) mod players) (raw[st := raw ! st @ [deck ! i]])"
    using st Suc.prems(2) by simp
  also have "\<dots> = Inr (map (dealtTo deck players leader (Suc i + m)) [0..<players])"
    using Suc.IH [OF next_st upd] .
  finally show ?case by simp
qed

lemma dealLoop_start:
  assumes "0 < players" "leader < players"
  shows "dealLoop deck players n 0 leader (replicate players []) =
           Inr (map (dealtTo deck players leader n) [0..<players])"
proof -
  have "replicate players [] = map (dealtTo deck players leader 0) [0..<players]"
    by (rule nth_equalityI) (simp_all add: dealtTo_0)
  from dealLoop_dealtTo [OF assms(1) _ this, of leader n] assms(2) show ?thesis by simp
qed

lemma sum_list_single_at:
  "sum_list (map (\<lambda>s. if k = s then {#x#} else {#}) [0..<p]) = (if k < p then {#x#} else {#})"
  by (induction p) auto

lemma sum_list_mset_append_if:
  "sum_list (map (\<lambda>s. mset (f s @ (if k = s then [x] else []))) [0..<p])
     = sum_list (map (\<lambda>s. mset (f s)) [0..<p]) + (if k < p then {#x#} else {#})"
  by (induction p) auto

text \<open>The seats' dealt hands together are the first \<open>n\<close> cards of the deck.\<close>

lemma dealtTo_partition:
  assumes "0 < players"
  shows "n \<le> length deck \<Longrightarrow>
         sum_list (map (\<lambda>s. mset (dealtTo deck players leader n s)) [0..<players]) = mset (take n deck)"
proof (induction n)
  case 0
  then show ?case by (simp add: dealtTo_0)
next
  case (Suc n)
  have "(leader + n) mod players < players" using assms by simp
  then have "sum_list (map (\<lambda>s. mset (dealtTo deck players leader (Suc n) s)) [0..<players])
        = sum_list (map (\<lambda>s. mset (dealtTo deck players leader n s)) [0..<players]) + {#deck ! n#}"
    unfolding dealtTo_Suc by (simp only: sum_list_mset_append_if if_True)
  also have "\<dots> = mset (take n deck) + {#deck ! n#}" using Suc by simp
  also have "\<dots> = mset (take (Suc n) deck)"
    using Suc.prems by (simp add: take_Suc_conv_app_nth)
  finally show ?case .
qed

text \<open>Every seat is dealt a card as soon as one round is dealt.\<close>

lemma dealtTo_nonempty:
  assumes "0 < players" "leader < players" "s < players" "players \<le> n"
  shows "dealtTo deck players leader n s \<noteq> []"
proof -
  let ?i = "(s + players - leader) mod players"
  have i: "?i < n" using assms by (meson less_le_trans mod_less_divisor)
  have "(leader + ?i) mod players = (leader + (s + players - leader)) mod players"
    by (simp add: mod_add_right_eq)
  also have "\<dots> = s" using assms by simp
  finally have "?i \<in> set (filter (\<lambda>i. (leader + i) mod players = s) [0..<n])"
    using i by simp
  then have "filter (\<lambda>i. (leader + i) mod players = s) [0..<n] \<noteq> []"
    by (metis empty_iff empty_set)
  then show ?thesis by (simp add: dealtTo_def)
qed

lemma mset_spliced:
  "idx < length xs \<Longrightarrow> mset (take idx xs @ drop (Suc idx) xs) + {#xs ! idx#} = mset xs"
proof -
  assume "idx < length xs"
  then have "xs = take idx xs @ xs ! idx # drop (Suc idx) xs" by (rule id_take_nth_drop)
  then have "mset xs = mset (take idx xs @ xs ! idx # drop (Suc idx) xs)" by simp
  then show ?thesis by simp
qed

text \<open>The plan in terms of the dealt arrays \<open>raw\<close>.\<close>

lemma planDeal_of_raw:
  assumes "dealLoop (shuffle sr (buildDecksNoTwos dc) seed) players
             (case cardsPerPlayer players dc of enat e \<Rightarrow> players * e | \<infinity> \<Rightarrow> 0) 0 leaderSeat
             (replicate players []) = Inr raw"
    and "hiderSeat < length raw" and "raw ! hiderSeat \<noteq> []"
  shows "planDeal sr rnd players dc hiderSeat leaderSeat seed =
           Inr \<lparr>plan_deckCount = dc, plan_players = players,
                plan_hiderSeat = hiderSeat, plan_leaderSeat = leaderSeat,
                plan_trumpSuit = cardSuit (raw ! hiderSeat ! floorMul rnd (length (raw ! hiderSeat))),
                plan_hands =
                  map (\<lambda>s. \<lparr>visible = sort_cmp sortBySuitRank
                                        ((raw[hiderSeat := take (floorMul rnd (length (raw ! hiderSeat))) (raw ! hiderSeat)
                                               @ drop (Suc (floorMul rnd (length (raw ! hiderSeat)))) (raw ! hiderSeat)]) ! s),
                            hidden = (if s = hiderSeat
                                      then Some (raw ! hiderSeat ! floorMul rnd (length (raw ! hiderSeat)))
                                      else None)\<rparr>)
                    [0..<length raw],
                plan_seed = seed\<rparr>"
proof -
  have "floorMul rnd (length (raw ! hiderSeat)) < length (raw ! hiderSeat)"
    using assms(3) by (intro floorMul_less) simp
  then show ?thesis
    using assms(1,2) by (simp add: planDeal_def Let_def)
qed

lemma distinct_buildSingleDeckNoTwos: "distinct buildSingleDeckNoTwos"
  by (simp add: buildSingleDeckNoTwos_def RANKS_def SUITS_def)

lemma card_in_buildSingleDeckNoTwos: "c \<in> set buildSingleDeckNoTwos"
proof (cases c)
  case (Card r s)
  have "r \<in> set RANKS" by (cases r) (simp_all add: RANKS_def)
  moreover have "s \<in> set SUITS" by (cases s) (simp_all add: SUITS_def)
  ultimately show ?thesis using Card by (auto simp: buildSingleDeckNoTwos_def)
qed

text \<open>Every card is in the built deck once per deck.\<close>

lemma count_buildDecksNoTwos:
  "count (mset (buildDecksNoTwos dc)) c = (if dc = OneDeck then 1 else 2)"
proof -
  have "count (mset buildSingleDeckNoTwos) c = 1"
    using distinct_buildSingleDeckNoTwos card_in_buildSingleDeckNoTwos [of c]
    by (simp add: distinct_count_atmost_1)
  then show ?thesis by (simp add: buildDecksNoTwos_def Let_def)
qed

lemma planDeal_shape:
  fixes sr :: "string \<Rightarrow> nat \<Rightarrow> draw" and seed :: string and rnd :: draw
    and players hiderSeat leaderSeat :: nat and dc :: deckCount
  assumes "0 < players" "players \<le> length (buildDecksNoTwos dc)"
    and "hiderSeat < players" "leaderSeat < players"
  defines "deck \<equiv> shuffle sr (buildDecksNoTwos dc) seed"
  defines "hh \<equiv> dealtTo deck players leaderSeat (dealtCount players dc) hiderSeat"
  defines "idx \<equiv> floorMul rnd (length hh)"
  shows "idx < length hh"
    and "planDeal sr rnd players dc hiderSeat leaderSeat seed =
           Inr \<lparr>plan_deckCount = dc, plan_players = players,
                plan_hiderSeat = hiderSeat, plan_leaderSeat = leaderSeat,
                plan_trumpSuit = cardSuit (hh ! idx),
                plan_hands =
                  map (\<lambda>s. \<lparr>visible = sort_cmp sortBySuitRank
                                        (if s = hiderSeat then take idx hh @ drop (Suc idx) hh
                                         else dealtTo deck players leaderSeat (dealtCount players dc) s),
                            hidden = (if s = hiderSeat then Some (hh ! idx) else None)\<rparr>)
                    [0..<players],
                plan_seed = seed\<rparr>"
proof -
  let ?n = "dealtCount players dc"
  let ?raw = "map (dealtTo deck players leaderSeat ?n) [0..<players]"
  have bound: "(case cardsPerPlayer players dc of enat e \<Rightarrow> players * e | \<infinity> \<Rightarrow> 0) = ?n"
    using assms(1) by (simp add: cardsPerPlayer_eq dealtCount_def)
  have loop: "dealLoop deck players ?n 0 leaderSeat (replicate players []) = Inr ?raw"
    using dealLoop_start [OF assms(1) assms(4)] .
  have "1 \<le> length (buildDecksNoTwos dc) div players"
    using assms(1,2) by (simp add: Suc_le_eq div_greater_zero_iff)
  then have pn: "players \<le> ?n" by (simp add: dealtCount_def)
  have rawh: "?raw ! hiderSeat = hh" using assms(3) by (simp add: hh_def)
  have ne: "hh \<noteq> []"
    unfolding hh_def using dealtTo_nonempty [OF assms(1) assms(4) assms(3) pn] .
  then show idx: "idx < length hh" unfolding idx_def by (intro floorMul_less) simp
  have len: "hiderSeat < length ?raw" using assms(3) by simp
  have ne': "?raw ! hiderSeat \<noteq> []" using ne rawh by simp
  have loop': "dealLoop (shuffle sr (buildDecksNoTwos dc) seed) players
             (case cardsPerPlayer players dc of enat e \<Rightarrow> players * e | \<infinity> \<Rightarrow> 0) 0 leaderSeat
             (replicate players []) = Inr ?raw"
    using loop unfolding bound deck_def .
  have hands: "map (\<lambda>s. \<lparr>visible = sort_cmp sortBySuitRank
                                        ((?raw[hiderSeat := take idx hh @ drop (Suc idx) hh]) ! s),
                            hidden = (if s = hiderSeat then Some (hh ! idx) else None)\<rparr>)
                    [0..<players]
        = map (\<lambda>s. \<lparr>visible = sort_cmp sortBySuitRank
                                        (if s = hiderSeat then take idx hh @ drop (Suc idx) hh
                                         else dealtTo deck players leaderSeat ?n s),
                            hidden = (if s = hiderSeat then Some (hh ! idx) else None)\<rparr>)
                    [0..<players]"
    using assms(3) by (intro map_cong refl) (auto simp: nth_list_update)
  show "planDeal sr rnd players dc hiderSeat leaderSeat seed =
           Inr \<lparr>plan_deckCount = dc, plan_players = players,
                plan_hiderSeat = hiderSeat, plan_leaderSeat = leaderSeat,
                plan_trumpSuit = cardSuit (hh ! idx),
                plan_hands =
                  map (\<lambda>s. \<lparr>visible = sort_cmp sortBySuitRank
                                        (if s = hiderSeat then take idx hh @ drop (Suc idx) hh
                                         else dealtTo deck players leaderSeat ?n s),
                            hidden = (if s = hiderSeat then Some (hh ! idx) else None)\<rparr>)
                    [0..<players],
                plan_seed = seed\<rparr>"
    unfolding planDeal_of_raw [OF loop' len ne', of rnd] rawh idx_def [symmetric]
    using hands by simp
qed

lemma mset_take_subseteq: "mset (take n xs) \<subseteq># mset xs"
proof -
  have "mset xs = mset (take n xs) + mset (drop n xs)"
    by (metis append_take_drop_id mset_append)
  then show ?thesis by simp
qed

text \<open>
  C2 (amended). For a player count between 1 and the deck size and seats below the player
  count, \<^verbatim>\<open>planDeal\<close> returns a plan in which exactly the hider's hand has a hidden card; that
  card and the hider's visible cards are the cards dealt to the hider, and the trump suit is the
  hidden card's suit. The hands and the hidden card together are the first
  \<open>players * floor(deck size / players)\<close> cards of the shuffled deck, so no card occurs more
  often than in the deck; when the player count divides the deck size they are the whole deck,
  every card once per deck.
\<close>

theorem planDeal_cards:
  assumes "0 < players" and "players \<le> length (buildDecksNoTwos dc)"
    and "hiderSeat < players" and "leaderSeat < players"
  shows "\<exists>plan hc.
           planDeal sr rnd players dc hiderSeat leaderSeat seed = Inr plan \<and>
           length (plan_hands plan) = players \<and>
           hidden (plan_hands plan ! hiderSeat) = Some hc \<and>
           (\<forall>s<players. s \<noteq> hiderSeat \<longrightarrow> hidden (plan_hands plan ! s) = None) \<and>
           handCards (plan_hands plan ! hiderSeat) =
             mset (dealtTo (shuffle sr (buildDecksNoTwos dc) seed) players leaderSeat
                     (dealtCount players dc) hiderSeat) \<and>
           plan_trumpSuit plan = cardSuit hc \<and>
           planCards plan = mset (take (dealtCount players dc) (shuffle sr (buildDecksNoTwos dc) seed)) \<and>
           planCards plan \<subseteq># mset (buildDecksNoTwos dc) \<and>
           (players dvd length (buildDecksNoTwos dc) \<longrightarrow>
              planCards plan = mset (buildDecksNoTwos dc) \<and>
              (\<forall>c. count (planCards plan) c = (if dc = OneDeck then 1 else 2)))"
proof -
  define deck where "deck = shuffle sr (buildDecksNoTwos dc) seed"
  define n where "n = dealtCount players dc"
  define hh where "hh = dealtTo deck players leaderSeat n hiderSeat"
  define idx where "idx = floorMul rnd (length hh)"
  define hands where "hands =
     map (\<lambda>s. \<lparr>visible = sort_cmp sortBySuitRank
                           (if s = hiderSeat then take idx hh @ drop (Suc idx) hh
                            else dealtTo deck players leaderSeat n s),
               hidden = (if s = hiderSeat then Some (hh ! idx) else None)\<rparr>) [0..<players]"
  define plan where "plan =
     \<lparr>plan_deckCount = dc, plan_players = players, plan_hiderSeat = hiderSeat,
      plan_leaderSeat = leaderSeat, plan_trumpSuit = cardSuit (hh ! idx),
      plan_hands = hands, plan_seed = seed\<rparr>"
  have idx: "idx < length hh"
    using planDeal_shape(1) [OF assms, of rnd sr seed]
    unfolding idx_def hh_def deck_def n_def .
  have res: "planDeal sr rnd players dc hiderSeat leaderSeat seed = Inr plan"
    using planDeal_shape(2) [OF assms, of sr rnd seed]
    unfolding plan_def hands_def idx_def hh_def deck_def n_def .
  have len: "length (plan_hands plan) = players" by (simp add: plan_def hands_def)
  have hid: "hidden (plan_hands plan ! hiderSeat) = Some (hh ! idx)"
    using assms(3) by (simp add: plan_def hands_def)
  have others: "\<forall>s<players. s \<noteq> hiderSeat \<longrightarrow> hidden (plan_hands plan ! s) = None"
    by (simp add: plan_def hands_def)
  have hc: "handCards (hands ! s) = mset (dealtTo deck players leaderSeat n s)" if "s < players" for s
  proof (cases "s = hiderSeat")
    case True
    then show ?thesis
      using that mset_spliced [OF idx]
      by (simp add: hands_def handCards_def mset_sort_cmp hh_def)
  next
    case False
    then show ?thesis using that by (simp add: hands_def handCards_def mset_sort_cmp)
  qed
  have hider: "handCards (plan_hands plan ! hiderSeat) = mset (dealtTo deck players leaderSeat n hiderSeat)"
    using hc [OF assms(3)] by (simp add: plan_def)
  have "map handCards hands = map (\<lambda>s. handCards (hands ! s)) [0..<players]"
    by (rule nth_equalityI) (simp_all add: hands_def)
  also have "\<dots> = map (\<lambda>s. mset (dealtTo deck players leaderSeat n s)) [0..<players]"
    by (rule map_cong) (simp_all add: hc)
  finally have "planCards plan = sum_list (map (\<lambda>s. mset (dealtTo deck players leaderSeat n s)) [0..<players])"
    by (simp add: planCards_def plan_def)
  moreover have nle: "n \<le> length deck"
    by (simp add: n_def deck_def length_shuffle dealt_le_deck)
  ultimately have cards: "planCards plan = mset (take n deck)"
    using dealtTo_partition [OF assms(1), of n deck leaderSeat] by simp
  have mdeck: "mset deck = mset (buildDecksNoTwos dc)" by (simp add: deck_def mset_shuffle)
  have sub: "planCards plan \<subseteq># mset (buildDecksNoTwos dc)"
    using mset_take_subseteq [of n deck] unfolding cards mdeck .
  have full: "planCards plan = mset (buildDecksNoTwos dc) \<and>
              (\<forall>c. count (planCards plan) c = (if dc = OneDeck then 1 else 2))"
    if "players dvd length (buildDecksNoTwos dc)"
  proof -
    have "n = length deck"
      using dealtCount_dvd [OF that] by (simp add: n_def deck_def length_shuffle)
    then have "planCards plan = mset (buildDecksNoTwos dc)" using cards mdeck by simp
    then show ?thesis by (simp add: count_buildDecksNoTwos)
  qed
  have trump: "plan_trumpSuit plan = cardSuit (hh ! idx)" by (simp add: plan_def)
  show ?thesis
    apply (rule exI [of _ plan], rule exI [of _ "hh ! idx"])
    using res len hid others hider trump cards sub full
    unfolding deck_def n_def by blast
qed

subsection \<open>A worked deal\<close>

text \<open>With every draw of the generator at \<open>99/100\<close> the shuffle leaves the deck as built.\<close>

lemma shuffled_high: "shuffle (\<lambda>sd k. draw_high) (buildDecksNoTwos dc) seed = buildDecksNoTwos dc"
  by (rule shuffle_high) (simp add: length_buildDecksNoTwos)

lemma example_hider_hand:
  "length (dealtTo (buildDecksNoTwos OneDeck) 4 1 (dealtCount 4 OneDeck) 0) = 12"
  by code_simp

lemma example_pre:
  "(0::nat) < 4" "4 \<le> length (buildDecksNoTwos OneDeck)" "(0::nat) < 4" "(1::nat) < 4"
  by (simp_all add: length_buildDecksNoTwos)

lemma example_pre5:
  "(0::nat) < 5" "5 \<le> length (buildDecksNoTwos OneDeck)" "(0::nat) < 5" "(1::nat) < 5"
  by (simp_all add: length_buildDecksNoTwos)

text \<open>Four players, one deck, hider at seat 0, leader at seat 1, \<^verbatim>\<open>Math.random()\<close> giving 0:
  the first card dealt to the hider, the Jack of Spades, is hidden.\<close>

lemma example_plan_zero:
  "planDeal (\<lambda>sd k. draw_high) draw_zero 4 OneDeck 0 1 ''seed'' =
     Inr \<lparr>plan_deckCount = OneDeck, plan_players = 4, plan_hiderSeat = 0, plan_leaderSeat = 1,
          plan_trumpSuit = Spades,
          plan_hands =
            [\<lparr>visible = [Card Seven Spades, Card Three Spades,
                         Card Jack Hearts, Card Seven Hearts, Card Three Hearts,
                         Card Jack Diamonds, Card Seven Diamonds, Card Three Diamonds,
                         Card Jack Clubs, Card Seven Clubs, Card Three Clubs],
              hidden = Some (Card Jack Spades)\<rparr>,
             \<lparr>visible = [Card Ace Spades, Card Ten Spades, Card Six Spades,
                         Card Ace Hearts, Card Ten Hearts, Card Six Hearts,
                         Card Ace Diamonds, Card Ten Diamonds, Card Six Diamonds,
                         Card Ace Clubs, Card Ten Clubs, Card Six Clubs],
              hidden = None\<rparr>,
             \<lparr>visible = [Card King Spades, Card Nine Spades, Card Five Spades,
                         Card King Hearts, Card Nine Hearts, Card Five Hearts,
                         Card King Diamonds, Card Nine Diamonds, Card Five Diamonds,
                         Card King Clubs, Card Nine Clubs, Card Five Clubs],
              hidden = None\<rparr>,
             \<lparr>visible = [Card Queen Spades, Card Eight Spades, Card Four Spades,
                         Card Queen Hearts, Card Eight Hearts, Card Four Hearts,
                         Card Queen Diamonds, Card Eight Diamonds, Card Four Diamonds,
                         Card Queen Clubs, Card Eight Clubs, Card Four Clubs],
              hidden = None\<rparr>],
          plan_seed = ''seed''\<rparr>"
  unfolding planDeal_shape(2) [OF example_pre] shuffled_high floorMul_zero
  by code_simp

text \<open>The same call with \<^verbatim>\<open>Math.random()\<close> giving \<open>99/100\<close>: the last card dealt to the hider,
  the Three of Clubs, is hidden.\<close>

lemma example_plan_high:
  "planDeal (\<lambda>sd k. draw_high) draw_high 4 OneDeck 0 1 ''seed'' =
     Inr \<lparr>plan_deckCount = OneDeck, plan_players = 4, plan_hiderSeat = 0, plan_leaderSeat = 1,
          plan_trumpSuit = Clubs,
          plan_hands =
            [\<lparr>visible = [Card Jack Spades, Card Seven Spades, Card Three Spades,
                         Card Jack Hearts, Card Seven Hearts, Card Three Hearts,
                         Card Jack Diamonds, Card Seven Diamonds, Card Three Diamonds,
                         Card Jack Clubs, Card Seven Clubs],
              hidden = Some (Card Three Clubs)\<rparr>,
             \<lparr>visible = [Card Ace Spades, Card Ten Spades, Card Six Spades,
                         Card Ace Hearts, Card Ten Hearts, Card Six Hearts,
                         Card Ace Diamonds, Card Ten Diamonds, Card Six Diamonds,
                         Card Ace Clubs, Card Ten Clubs, Card Six Clubs],
              hidden = None\<rparr>,
             \<lparr>visible = [Card King Spades, Card Nine Spades, Card Five Spades,
                         Card King Hearts, Card Nine Hearts, Card Five Hearts,
                         Card King Diamonds, Card Nine Diamonds, Card Five Diamonds,
                         Card King Clubs, Card Nine Clubs, Card Five Clubs],
              hidden = None\<rparr>,
             \<lparr>visible = [Card Queen Spades, Card Eight Spades, Card Four Spades,
                         Card Queen Hearts, Card Eight Hearts, Card Four Hearts,
                         Card Queen Diamonds, Card Eight Diamonds, Card Four Diamonds,
                         Card Queen Clubs, Card Eight Clubs, Card Four Clubs],
              hidden = None\<rparr>],
          plan_seed = ''seed''\<rparr>"
proof -
  have f: "floorMul draw_high 12 = 11" by (simp add: floorMul_high)
  show ?thesis
    unfolding planDeal_shape(2) [OF example_pre] shuffled_high example_hider_hand f
    by code_simp
qed

theorem planDeal_cards_witness:
  "(0::nat) < 4 \<and> 4 \<le> length (buildDecksNoTwos OneDeck) \<and> (1::nat) < 4 \<and>
   4 dvd length (buildDecksNoTwos OneDeck) \<and>
   map_sum id planCards (planDeal (\<lambda>sd k. draw_high) draw_zero 4 OneDeck 0 1 ''seed'')
     = Inr (mset (buildDecksNoTwos OneDeck)) \<and>
   map_sum id plan_trumpSuit (planDeal (\<lambda>sd k. draw_high) draw_zero 4 OneDeck 0 1 ''seed'')
     = Inr Spades"
proof -
  have d: "4 dvd length (buildDecksNoTwos OneDeck)" by (simp add: length_buildDecksNoTwos)
  from planDeal_cards [OF example_pre, of "\<lambda>sd k. draw_high" draw_zero "''seed''"] d
  obtain plan where
    "planDeal (\<lambda>sd k. draw_high) draw_zero 4 OneDeck 0 1 ''seed'' = Inr plan"
    "planCards plan = mset (buildDecksNoTwos OneDeck)"
    by blast
  then have "map_sum id planCards (planDeal (\<lambda>sd k. draw_high) draw_zero 4 OneDeck 0 1 ''seed'')
     = Inr (mset (buildDecksNoTwos OneDeck))" by simp
  moreover have "map_sum id plan_trumpSuit (planDeal (\<lambda>sd k. draw_high) draw_zero 4 OneDeck 0 1 ''seed'')
     = Inr Spades" unfolding example_plan_zero by simp
  ultimately show ?thesis using example_pre d by simp
qed

text \<open>
  C2 as stated fails for five players and one deck: nine cards each are dealt, and the last three
  cards of the shuffled deck are in no hand; with the deck left as built the Three of Clubs is
  one of them.
\<close>

theorem planDeal_drops_cards_counterexample:
  "(case planDeal (\<lambda>sd k. draw_high) draw_zero 5 OneDeck 0 1 ''seed'' of
      Inl e \<Rightarrow> False
    | Inr plan \<Rightarrow>
        size (planCards plan) = 45 \<and>
        count (planCards plan) (Card Three Clubs) = 0 \<and>
        count (mset (buildDecksNoTwos OneDeck)) (Card Three Clubs) = 1)"
  unfolding planDeal_shape(2) [OF example_pre5] shuffled_high floorMul_zero
  by code_simp

subsection \<open>What the plan owes to the seed and what to the unseeded draw\<close>

lemma floorMul_0 [simp]: "floorMul r 0 = 0"
  by (simp add: floorMul_def)

lemma planDeal_failure:
  assumes "dealLoop (shuffle sr (buildDecksNoTwos dc) seed) players
             (case cardsPerPlayer players dc of enat e \<Rightarrow> players * e | \<infinity> \<Rightarrow> 0) 0 leaderSeat
             (replicate players []) = Inl e
           \<or> (\<exists>raw. dealLoop (shuffle sr (buildDecksNoTwos dc) seed) players
                 (case cardsPerPlayer players dc of enat e \<Rightarrow> players * e | \<infinity> \<Rightarrow> 0) 0 leaderSeat
                 (replicate players []) = Inr raw \<and> e = TypeError \<and>
                 (\<not> hiderSeat < length raw \<or> raw ! hiderSeat = []))"
  shows "planDeal sr rnd players dc hiderSeat leaderSeat seed = Inl e"
  using assms by (auto simp: planDeal_def Let_def)

text \<open>
  C3 (amended). Two calls of \<^verbatim>\<open>planDeal\<close> with the same arguments, whatever their two draws of
  \<^verbatim>\<open>Math.random()\<close>, fail alike or succeed alike; when they succeed the plans have the same
  counts, seats and seed, the same hand for every seat but the hider, and the same cards
  (visible and hidden together) for the hider. When the two draws pick the same position of
  the hider's hand the plans are equal.
\<close>

theorem planDeal_reproducible_up_to_hidden_draw:
  "(\<forall>e. planDeal sr r1 players dc hiderSeat leaderSeat seed = Inl e \<longleftrightarrow>
        planDeal sr r2 players dc hiderSeat leaderSeat seed = Inl e) \<and>
   (\<forall>p1 p2. planDeal sr r1 players dc hiderSeat leaderSeat seed = Inr p1 \<and>
            planDeal sr r2 players dc hiderSeat leaderSeat seed = Inr p2 \<longrightarrow>
      plan_deckCount p1 = plan_deckCount p2 \<and> plan_players p1 = plan_players p2 \<and>
      plan_hiderSeat p1 = plan_hiderSeat p2 \<and> plan_leaderSeat p1 = plan_leaderSeat p2 \<and>
      plan_seed p1 = plan_seed p2 \<and>
      length (plan_hands p1) = length (plan_hands p2) \<and>
      (\<forall>s<length (plan_hands p1). s \<noteq> hiderSeat \<longrightarrow> plan_hands p1 ! s = plan_hands p2 ! s) \<and>
      handCards (plan_hands p1 ! hiderSeat) = handCards (plan_hands p2 ! hiderSeat) \<and>
      (floorMul r1 (size (handCards (plan_hands p1 ! hiderSeat)))
         = floorMul r2 (size (handCards (plan_hands p1 ! hiderSeat))) \<longrightarrow> p1 = p2))"
proof -
  let ?L = "dealLoop (shuffle sr (buildDecksNoTwos dc) seed) players
             (case cardsPerPlayer players dc of enat e \<Rightarrow> players * e | \<infinity> \<Rightarrow> 0) 0 leaderSeat
             (replicate players [])"
  consider (loop_fails) e where "?L = Inl e"
    | (no_hand) raw where "?L = Inr raw" "\<not> hiderSeat < length raw \<or> raw ! hiderSeat = []"
    | (deals) raw where "?L = Inr raw" "hiderSeat < length raw" "raw ! hiderSeat \<noteq> []"
    by (cases ?L) auto
  then show ?thesis
  proof cases
    case loop_fails
    then have "planDeal sr r players dc hiderSeat leaderSeat seed = Inl e" for r
      by (intro planDeal_failure) simp
    then show ?thesis by simp
  next
    case no_hand
    then have "planDeal sr r players dc hiderSeat leaderSeat seed = Inl TypeError" for r
      by (intro planDeal_failure) simp
    then show ?thesis by simp
  next
    case deals
    let ?hh = "raw ! hiderSeat"
    have idx: "floorMul r (length ?hh) < length ?hh" for r
      using deals(3) by (intro floorMul_less) simp
    note plan = planDeal_of_raw [OF deals]
    have cards: "handCards
        \<lparr>visible = sort_cmp sortBySuitRank
                     (take (floorMul r (length ?hh)) ?hh @ drop (Suc (floorMul r (length ?hh))) ?hh),
         hidden = Some (?hh ! floorMul r (length ?hh))\<rparr> = mset ?hh" for r
      using mset_spliced [OF idx [of r]] by (simp add: handCards_def mset_sort_cmp)
    show ?thesis
      unfolding plan
      using deals(2) cards by (auto simp: nth_list_update)
  qed
qed

theorem planDeal_reproducible_up_to_hidden_draw_witness:
  "\<not> isl (planDeal (\<lambda>sd k. draw_high) draw_zero 4 OneDeck 0 1 ''seed'') \<and>
   \<not> isl (planDeal (\<lambda>sd k. draw_high) draw_high 4 OneDeck 0 1 ''seed'') \<and>
   tl (plan_hands (projr (planDeal (\<lambda>sd k. draw_high) draw_zero 4 OneDeck 0 1 ''seed'')))
     = tl (plan_hands (projr (planDeal (\<lambda>sd k. draw_high) draw_high 4 OneDeck 0 1 ''seed''))) \<and>
   handCards (hd (plan_hands (projr (planDeal (\<lambda>sd k. draw_high) draw_zero 4 OneDeck 0 1 ''seed''))))
     = handCards (hd (plan_hands (projr (planDeal (\<lambda>sd k. draw_high) draw_high 4 OneDeck 0 1 ''seed''))))"
proof -
  obtain p1 where p1: "planDeal (\<lambda>sd k. draw_high) draw_zero 4 OneDeck 0 1 ''seed'' = Inr p1"
    "length (plan_hands p1) = 4"
    using example_plan_zero by simp
  obtain p2 where p2: "planDeal (\<lambda>sd k. draw_high) draw_high 4 OneDeck 0 1 ''seed'' = Inr p2"
    "length (plan_hands p2) = 4"
    using example_plan_high by simp
  from planDeal_reproducible_up_to_hidden_draw
         [of "\<lambda>sd k. draw_high" draw_zero 4 OneDeck 0 1 "''seed''" draw_high] p1(1) p2(1)
  have same: "\<forall>s<length (plan_hands p1). s \<noteq> 0 \<longrightarrow> plan_hands p1 ! s = plan_hands p2 ! s"
    and hider: "handCards (plan_hands p1 ! 0) = handCards (plan_hands p2 ! 0)"
    by blast+
  have "tl (plan_hands p1) = tl (plan_hands p2)"
  proof (rule nth_equalityI)
    show "length (tl (plan_hands p1)) = length (tl (plan_hands p2))" using p1(2) p2(2) by simp
  next
    fix i assume "i < length (tl (plan_hands p1))"
    then have "Suc i < length (plan_hands p1)" by simp
    with same have "plan_hands p1 ! Suc i = plan_hands p2 ! Suc i" by blast
    then show "tl (plan_hands p1) ! i = tl (plan_hands p2) ! i"
      using p1(2) p2(2) \<open>i < length (tl (plan_hands p1))\<close> by (simp add: nth_tl)
  qed
  moreover have "plan_hands p1 \<noteq> []" "plan_hands p2 \<noteq> []" using p1(2) p2(2) by auto
  then have "handCards (hd (plan_hands p1)) = handCards (hd (plan_hands p2))"
    using hider by (simp add: hd_conv_nth)
  ultimately show ?thesis using p1(1) p2(1) by simp
qed

text \<open>
  C3 as stated fails: the hidden card is chosen by \<^verbatim>\<open>Math.random()\<close>, which the seed does not
  govern. Two calls with the same arguments, one drawing 0 and one drawing \<open>99/100\<close>, hide the
  Jack of Spades and the Three of Clubs and so set different trump suits.
\<close>

theorem planDeal_not_reproducible_counterexample:
  "map_sum id plan_trumpSuit (planDeal (\<lambda>sd k. draw_high) draw_zero 4 OneDeck 0 1 ''seed'') = Inr Spades \<and>
   map_sum id plan_trumpSuit (planDeal (\<lambda>sd k. draw_high) draw_high 4 OneDeck 0 1 ''seed'') = Inr Clubs \<and>
   map_sum id (map hidden \<circ> plan_hands) (planDeal (\<lambda>sd k. draw_high) draw_zero 4 OneDeck 0 1 ''seed'')
     = Inr [Some (Card Jack Spades), None, None, None] \<and>
   map_sum id (map hidden \<circ> plan_hands) (planDeal (\<lambda>sd k. draw_high) draw_high 4 OneDeck 0 1 ''seed'')
     = Inr [Some (Card Three Clubs), None, None, None]"
  unfolding example_plan_zero example_plan_high by simp

section \<open>The display order of a dealt hand\<close>

lemma indexOf_RANKS: "indexOf RANKS r = 12 - RANK_POWER r"
  by (cases r) (simp_all add: RANKS_def)

lemma SUIT_ORDER_inj: "SUIT_ORDER a = SUIT_ORDER b \<longleftrightarrow> a = b"
  by (cases a; cases b) simp_all

lemma sortBySuitRank_le: "sortBySuitRank a b \<le> 0 \<longleftrightarrow> displayBefore a b"
  using SUIT_ORDER_inj [of "cardSuit a" "cardSuit b"]
  by (auto simp: sortBySuitRank_def displayBefore_def Let_def indexOf_RANKS)

lemma consistent_sortBySuitRank: "consistent_on UNIV sortBySuitRank"
  unfolding consistent_on_def sortBySuitRank_le
  by (auto simp: displayBefore_def SUIT_ORDER_inj)

lemma sorted_display: "sorted_wrt displayBefore (sort_cmp sortBySuitRank xs)"
  using sorted_sort_cmp [OF consistent_sortBySuitRank, of xs]
  by (simp add: sortBySuitRank_le)

text \<open>
  C9 (amended). In every plan that \<^verbatim>\<open>planDeal\<close> returns, each seat's visible hand is in the
  display order of \<^verbatim>\<open>sortBySuitRank\<close>: by suit in the order Spades, Hearts, Diamonds, Clubs, and
  within a suit by descending strength, the Ace first and the Three last.
\<close>

theorem planDeal_hands_in_display_order:
  assumes "planDeal sr rnd players dc hiderSeat leaderSeat seed = Inr plan"
  shows "\<forall>h\<in>set (plan_hands plan). sorted_wrt displayBefore (visible h)"
proof
  fix h assume h: "h \<in> set (plan_hands plan)"
  from assms obtain f g n where "plan_hands plan =
      map (\<lambda>s. \<lparr>visible = sort_cmp sortBySuitRank (f s), hidden = g s\<rparr>) [0..<n]"
    by (auto simp: planDeal_def Let_def split: sum.splits if_splits)
  with h obtain s where "h = \<lparr>visible = sort_cmp sortBySuitRank (f s), hidden = g s\<rparr>"
    by auto
  then show "sorted_wrt displayBefore (visible h)" by (simp add: sorted_display)
qed

theorem planDeal_hands_in_display_order_witness:
  "\<not> isl (planDeal (\<lambda>sd k. draw_high) draw_zero 4 OneDeck 0 1 ''seed'') \<and>
   sorted_wrt displayBefore
     [Card Ace Spades, Card Ten Spades, Card Six Spades,
      Card Ace Hearts, Card Ten Hearts, Card Six Hearts,
      Card Ace Diamonds, Card Ten Diamonds, Card Six Diamonds,
      Card Ace Clubs, Card Ten Clubs, Card Six Clubs]"
proof -
  note ex = example_plan_zero
  from planDeal_hands_in_display_order [OF ex]
  have "sorted_wrt displayBefore
     [Card Ace Spades, Card Ten Spades, Card Six Spades,
      Card Ace Hearts, Card Ten Hearts, Card Six Hearts,
      Card Ace Diamonds, Card Ten Diamonds, Card Six Diamonds,
      Card Ace Clubs, Card Ten Clubs, Card Six Clubs]"
    by simp
  then show ?thesis unfolding ex by simp
qed

text \<open>
  C9 as stated fails: in the worked deal seat 1 holds the Ace, the Ten and the Six of Spades
  in this order, the strongest rank first, where the claim puts the weakest first.
\<close>

theorem planDeal_hands_not_ascending_counterexample:
  "(case planDeal (\<lambda>sd k. draw_high) draw_zero 4 OneDeck 0 1 ''seed'' of
      Inl e \<Rightarrow> False
    | Inr plan \<Rightarrow>
        take 3 (visible (plan_hands plan ! 1)) = [Card Ace Spades, Card Ten Spades, Card Six Spades] \<and>
        \<not> sorted_wrt specDisplayBefore (visible (plan_hands plan ! 1)))"
  unfolding example_plan_zero by (simp add: specDisplayBefore_def)

section \<open>Resolution of a trick outside a transaction\<close>

text \<open>
  C4. \<^verbatim>\<open>resolveTrick\<close> has no input for the reveal status, and \<^verbatim>\<open>undefinedIfUnrevealed\<close>
  returns the trump suit whatever the plays, so the trump is always active: in the trick
  Ten, King and Nine of Spades and Ace of Hearts, with Spades led and Hearts the unrevealed
  trump, seat 2 wins with the only Heart, where the winner without a trump suit is seat 1 with
  the King of Spades.
\<close>

theorem resolveTrick_applies_unrevealed_trump:
  "resolveTrick [\<lparr>seat = 0, card = Card Ten Spades, order = 0\<rparr>,
                 \<lparr>seat = 1, card = Card King Spades, order = 1\<rparr>,
                 \<lparr>seat = 2, card = Card Ace Hearts, order = 2\<rparr>,
                 \<lparr>seat = 3, card = Card Nine Spades, order = 3\<rparr>] Spades Hearts 4
     = Inr \<lparr>winnerSeat = 2, tensTaken = 1\<rparr> \<and>
   evaluateTrickWinner [\<lparr>seat = 0, card = Card Ten Spades, order = 0\<rparr>,
                        \<lparr>seat = 1, card = Card King Spades, order = 1\<rparr>,
                        \<lparr>seat = 2, card = Card Ace Hearts, order = 2\<rparr>,
                        \<lparr>seat = 3, card = Card Nine Spades, order = 3\<rparr>] (Some Spades) None
     = Some \<lparr>seat = 1, card = Card King Spades, order = 1\<rparr>"
  by (simp add: resolveTrick_def undefinedIfUnrevealed_def evaluateTrickWinner_def
      sort_cmp_def trickCmp_def)

section \<open>Revealing trump\<close>

lemma list_ex_legalPlays:
  "list_ex (\<lambda>c. Some (cardSuit c) = Some l) (legalPlays vis (Some l))
     \<longleftrightarrow> list_ex (\<lambda>c. Some (cardSuit c) = Some l) vis"
  by (auto simp: legalPlays_def Let_def list_ex_iff filter_empty_conv)

lemma revealTrumpAndPlay_eq:
  "revealTrumpAndPlay cl s b =
     (if mayRevealBySnapshot cl then (case uid cl of Some u \<Rightarrow> revealTx u s b | None \<Rightarrow> Inr s)
      else Inr s)"
proof (cases "state cl")
  case None
  then show ?thesis by (simp add: revealTrumpAndPlay_def mayRevealBySnapshot_def)
next
  case st: (Some st)
  show ?thesis
  proof (cases "myHand cl")
    case None
    then show ?thesis using st by (simp add: revealTrumpAndPlay_def mayRevealBySnapshot_def)
  next
    case mh: (Some mh)
    show ?thesis
    proof (cases "uid cl")
      case None
      then show ?thesis using st mh by (simp add: revealTrumpAndPlay_def mayRevealBySnapshot_def)
    next
      case u: (Some u)
      show ?thesis
      proof (cases "ledSuit st")
        case None
        then show ?thesis
          using st mh u by (simp add: revealTrumpAndPlay_def mayRevealBySnapshot_def)
      next
        case (Some l)
        then show ?thesis
          using st mh u list_ex_legalPlays [of l "visible mh"]
          by (auto simp: revealTrumpAndPlay_def mayRevealBySnapshot_def Let_def)
      qed
    qed
  qed
qed

lemma chooseReveal_no_trump:
  "\<not> holdsTrump hand trump \<Longrightarrow> chooseReveal hand trump b = Inl (Error ''No trump to reveal with'')"
  by (auto simp: holdsTrump_def chooseReveal_def Let_def list_ex_iff filter_empty_conv
      split: option.splits)

lemma revealTx_no_trump:
  assumes "room s = Some rm" "handDocs s u = Some hand" "\<not> holdsTrump hand (trumpSuit rm)"
  shows "isl (revealTx u s b)"
    and "seats rm = Some ss \<Longrightarrow> currentTurnSeat rm = Some (Number (indexOf ss u)) \<Longrightarrow>
         revealTx u s b = Inl (Error ''No trump to reveal with'')"
  using assms
  by (auto simp: revealTx_def Let_def chooseReveal_no_trump split: option.splits)

text \<open>
  C6 (amended). \<^verbatim>\<open>canRevealTrump\<close> returns true exactly when trump is not yet revealed, a suit
  is led and the seat holds no visible card of the led suit; it does not look at the trump
  suit or at the hidden card. That the seat owns a trump (a visible one, or its own hidden
  card) is tested by \<^verbatim>\<open>revealTrumpAndPlay\<close>: for a seat that owns none it never writes to the
  store, and when it reaches the choice of the card it throws "No trump to reveal with".
\<close>

theorem canRevealTrump_void_test_only:
  "(canRevealTrump handVisible hid led revealed \<longleftrightarrow>
      revealed \<noteq> Some True \<and> (\<exists>l. led = Some l \<and> (\<forall>c\<in>set handVisible. cardSuit c \<noteq> l))) \<and>
   (room s = Some rm \<and> handDocs s u = Some hand \<and> uid cl = Some u \<and>
    \<not> holdsTrump hand (trumpSuit rm) \<longrightarrow>
      (revealTrumpAndPlay cl s b = Inr s \<or> isl (revealTrumpAndPlay cl s b)) \<and>
      (mayRevealBySnapshot cl \<and> seats rm = Some ss \<and>
       currentTurnSeat rm = Some (Number (indexOf ss u)) \<longrightarrow>
         revealTrumpAndPlay cl s b = Inl (Error ''No trump to reveal with'')))"
proof (intro conjI impI)
  show "canRevealTrump handVisible hid led revealed \<longleftrightarrow>
      revealed \<noteq> Some True \<and> (\<exists>l. led = Some l \<and> (\<forall>c\<in>set handVisible. cardSuit c \<noteq> l))"
    by (cases led) (auto simp: canRevealTrump_def Let_def list_ex_iff)
next
  assume a: "room s = Some rm \<and> handDocs s u = Some hand \<and> uid cl = Some u \<and>
    \<not> holdsTrump hand (trumpSuit rm)"
  then show "revealTrumpAndPlay cl s b = Inr s \<or> isl (revealTrumpAndPlay cl s b)"
    using revealTx_no_trump(1) [of s rm u hand b]
    by (simp add: revealTrumpAndPlay_eq)
  assume "mayRevealBySnapshot cl \<and> seats rm = Some ss \<and>
       currentTurnSeat rm = Some (Number (indexOf ss u))"
  with a show "revealTrumpAndPlay cl s b = Inl (Error ''No trump to reveal with'')"
    using revealTx_no_trump(2) [of s rm u hand ss b]
    by (simp add: revealTrumpAndPlay_eq)
qed

lemma table_facts:
  "room (tableStore h) = Some tableRoom" "handDocs (tableStore h) ''b'' = Some h"
  "uid (tableClient h) = Some ''b''" "seats tableRoom = Some [''a'', ''b'', ''c'']"
  "currentTurnSeat tableRoom = Some (Number (indexOf [''a'', ''b'', ''c''] ''b''))"
  "trumpSuit tableRoom = Some Spades"
  by (simp_all add: tableStore_def tableClient_def tableRoom_def)

theorem canRevealTrump_void_test_only_witness:
  "canRevealTrump [Card Four Diamonds, Card Five Hearts] None (Some Spades) (Some False) \<and>
   \<not> holdsTrump noTrumpDoc (Some Spades) \<and>
   mayRevealBySnapshot (tableClient noTrumpDoc) \<and>
   revealTrumpAndPlay (tableClient noTrumpDoc) (tableStore noTrumpDoc) True
     = Inl (Error ''No trump to reveal with'')"
proof -
  have nt: "\<not> holdsTrump noTrumpDoc (trumpSuit tableRoom)"
    by (simp add: holdsTrump_def noTrumpDoc_def table_facts)
  have may: "mayRevealBySnapshot (tableClient noTrumpDoc)"
    by (simp add: mayRevealBySnapshot_def tableClient_def tableRoom_def noTrumpDoc_def)
  note inst = canRevealTrump_void_test_only
    [of "[Card Four Diamonds, Card Five Hearts]" None "Some Spades" "Some False"
        "tableStore noTrumpDoc" tableRoom "''b''" noTrumpDoc "tableClient noTrumpDoc" True
        "[''a'', ''b'', ''c'']"]
  from inst have "canRevealTrump [Card Four Diamonds, Card Five Hearts] None (Some Spades) (Some False)"
    by simp
  moreover from inst nt may
  have "revealTrumpAndPlay (tableClient noTrumpDoc) (tableStore noTrumpDoc) True
     = Inl (Error ''No trump to reveal with'')"
    using table_facts by blast
  ultimately show ?thesis using nt may by (simp add: table_facts)
qed

text \<open>
  C6 as stated fails: with Hearts led, trump not revealed and a hand of the Four of Diamonds
  and the Six of Clubs, \<^verbatim>\<open>canRevealTrump\<close> returns true although the hand has no card of the
  trump suit Spades, visible or hidden.
\<close>

theorem canRevealTrump_without_trump_counterexample:
  "canRevealTrump [Card Four Diamonds, Card Six Clubs] None (Some Hearts) (Some False) \<and>
   \<not> holdsTrump \<lparr>visible = [Card Four Diamonds, Card Six Clubs], hidden = None\<rparr> (Some Spades)"
  by (simp add: canRevealTrump_def holdsTrump_def)

section \<open>Submitting a play\<close>

lemma playCard_eq:
  "playCard cl s c =
     (if myTurnBySnapshot cl
      then (case (state cl, uid cl) of
              (Some st, Some u) \<Rightarrow>
                playCardTx u (case seats st of None \<Rightarrow> -1 | Some ss \<Rightarrow> indexOf ss u) s c
            | _ \<Rightarrow> Inr s)
      else Inr s)"
  by (auto simp: playCard_def myTurnBySnapshot_def Let_def split: option.splits)

lemma indexOf_ge_minus1: "-1 \<le> indexOf xs x"
  by (induction xs) (auto simp: Let_def)

lemma indexOf_neg_iff: "indexOf xs x < 0 \<longleftrightarrow> x \<notin> set xs"
  using indexOf_ge_minus1 [of _ x]
  by (induction xs) (auto simp: Let_def)

lemma indexOf_nth:
  "x \<in> set xs \<Longrightarrow> nat (indexOf xs x) < length xs \<and> xs ! nat (indexOf xs x) = x"
proof (induction xs)
  case Nil
  then show ?case by simp
next
  case (Cons y ys)
  show ?case
  proof (cases "y = x")
    case True
    then show ?thesis by simp
  next
    case False
    then have x: "x \<in> set ys" using Cons.prems by simp
    then have "\<not> indexOf ys x < 0" by (simp add: indexOf_neg_iff)
    then show ?thesis
      using False Cons.IH [OF x] by (simp add: Let_def nat_add_distrib)
  qed
qed



lemma mset_spliceOne_indexOf:
  "x \<in> set xs \<Longrightarrow> mset (spliceOne xs (nat (indexOf xs x))) + {#x#} = mset xs"
  using indexOf_nth [of x xs] mset_spliced [of "nat (indexOf xs x)" xs]
  by (simp add: spliceOne_def)



lemmas table_defs = tableClient_def tableStore_def tableRoom_def hiderTurnRoom_def
  hiderTurnStore_def hiderClient_def hiderDoc_def hiderTrumpDoc_def voidDoc_def thirdDoc_def
  followerDoc_def movedOnStore_def upToDate_def

lemmas play_defs = playCard_def playCardTx_def finishTrick_def evaluateTrickWinner_def
  sort_cmp_def trickCmp_def spliceOne_def jsRem_def teamKey_def Let_def



section \<open>The hidden card at a reveal\<close>

lemma chooseReveal_Inr:
  assumes "chooseReveal hand trump b = Inr (c, usingHidden)"
  shows "\<not> usingHidden \<Longrightarrow> c \<in> set (visible hand) \<and> Some (cardSuit c) = trump"
    and "usingHidden \<Longrightarrow> b \<and> hidden hand = Some c \<and> Some (cardSuit c) = trump \<and>
           (\<forall>c'\<in>set (visible hand). Some (cardSuit c') \<noteq> trump)"
proof -
  let ?vt = "filter (\<lambda>c. Some (cardSuit c) = trump) (visible hand)"
  show "c \<in> set (visible hand) \<and> Some (cardSuit c) = trump" if "\<not> usingHidden"
  proof -
    from assms that have ne: "?vt \<noteq> []" and c: "c = last (sort_cmp defaultCmp ?vt)"
      by (auto simp: chooseReveal_def Let_def split: option.splits if_splits)
    have "sort_cmp defaultCmp ?vt \<noteq> []" using ne by (simp add: sort_cmp_Nil_iff)
    then have "c \<in> set (sort_cmp defaultCmp ?vt)" unfolding c by (rule last_in_set)
    then have "c \<in> set ?vt" by (simp only: set_sort_cmp)
    then show ?thesis by simp
  qed
  show "b \<and> hidden hand = Some c \<and> Some (cardSuit c) = trump \<and>
           (\<forall>c'\<in>set (visible hand). Some (cardSuit c') \<noteq> trump)" if "usingHidden"
    using assms that
    by (auto simp: chooseReveal_def Let_def filter_empty_conv split: option.splits if_splits)
qed

text \<open>A committed reveal transaction writes one hand document, the acting user's.\<close>

lemma revealTx_Inr:
  assumes "revealTx u s b = Inr s'"
  shows "\<exists>rm hand c usingHidden.
           room s = Some rm \<and> handDocs s u = Some hand \<and>
           chooseReveal hand (trumpSuit rm) b = Inr (c, usingHidden) \<and>
           handDocs s' = (handDocs s)(u \<mapsto> revealedHand hand c usingHidden)"
proof -
  from assms obtain rm where rm: "room s = Some rm"
    by (cases "room s") (simp_all add: revealTx_def)
  from assms rm obtain ss where ss: "seats rm = Some ss"
    by (cases "seats rm") (simp_all add: revealTx_def)
  have turn: "currentTurnSeat rm = Some (Number (indexOf ss u))"
    using assms rm ss by (simp add: revealTx_def Let_def split: if_splits)
  from assms rm ss turn obtain hand where hand: "handDocs s u = Some hand"
    by (cases "handDocs s u") (simp_all add: revealTx_def)
  from assms rm ss turn hand obtain c usingHidden where
    ch: "chooseReveal hand (trumpSuit rm) b = Inr (c, usingHidden)"
    by (cases "chooseReveal hand (trumpSuit rm) b") (auto simp add: revealTx_def)
  have docs: "handDocs s' = (handDocs s)(u \<mapsto> revealedHand hand c usingHidden)"
    using assms unfolding revealTx_def revealedHand_def
    by (simp add: rm ss turn hand ch Let_def split: sum.splits if_splits) auto
  with rm hand ch docs show ?thesis by blast
qed

text \<open>A committed play transaction writes the acting user's visible cards only.\<close>

lemma playCardTx_Inr:
  assumes "playCardTx u m s c = Inr s'"
  shows "\<exists>hand vis. handDocs s u = Some hand \<and> handDocs s' = (handDocs s)(u \<mapsto> hand\<lparr>visible := vis\<rparr>)"
proof -
  from assms obtain rm where rm: "room s = Some rm"
    by (cases "room s") (simp_all add: playCardTx_def)
  from assms rm obtain hand where hand: "handDocs s u = Some hand"
    by (cases "handDocs s u") (simp_all add: playCardTx_def)
  have idx: "\<not> indexOf (visible hand) c < 0"
    using assms rm hand by (simp add: playCardTx_def Let_def split: if_splits)
  from assms rm hand idx obtain ss where ss: "seats rm = Some ss"
    by (cases "seats rm") (simp_all add: playCardTx_def Let_def)
  have "handDocs s' = (handDocs s)(u \<mapsto> hand\<lparr>visible := spliceOne (visible hand) (nat (indexOf (visible hand) c))\<rparr>)"
    using assms unfolding playCardTx_def
    by (simp add: rm hand idx ss Let_def split: sum.splits if_splits) auto
  with hand show ?thesis by blast
qed

lemma applyAction_hidden_empty:
  assumes "\<exists>h. handDocs s v = Some h \<and> hidden h = None"
  shows "\<exists>h. handDocs (applyAction s a) v = Some h \<and> hidden h = None"
proof (cases a)
  case (PlayCard cl c)
  show ?thesis
  proof (cases "playCard cl s c")
    case (Inl e)
    then show ?thesis using assms PlayCard by simp
  next
    case (Inr s')
    then have "s' = s \<or> (\<exists>u m. playCardTx u m s c = Inr s')"
      by (auto simp: playCard_eq split: if_splits option.splits)
    then show ?thesis
    proof
      assume "s' = s"
      then show ?thesis using assms PlayCard Inr by simp
    next
      assume "\<exists>u m. playCardTx u m s c = Inr s'"
      then obtain u m where "playCardTx u m s c = Inr s'" by blast
      from playCardTx_Inr [OF this] obtain hand vis where
        "handDocs s u = Some hand" "handDocs s' = (handDocs s)(u \<mapsto> hand\<lparr>visible := vis\<rparr>)"
        by blast
      then show ?thesis using assms PlayCard Inr by (cases "v = u") auto
    qed
  qed
next
  case (RevealTrump cl b)
  show ?thesis
  proof (cases "revealTrumpAndPlay cl s b")
    case (Inl e)
    then show ?thesis using assms RevealTrump by simp
  next
    case (Inr s')
    then have "s' = s \<or> (\<exists>u. revealTx u s b = Inr s')"
      by (auto simp: revealTrumpAndPlay_eq split: if_splits option.splits)
    then show ?thesis
    proof
      assume "s' = s"
      then show ?thesis using assms RevealTrump Inr by simp
    next
      assume "\<exists>u. revealTx u s b = Inr s'"
      then obtain u where "revealTx u s b = Inr s'" by blast
      from revealTx_Inr [OF this] obtain hand c uh where
        "handDocs s' = (handDocs s)(u \<mapsto> revealedHand hand c uh)"
        by blast
      then show ?thesis
        using assms RevealTrump Inr by (cases "v = u") (auto simp: revealedHand_def)
    qed
  qed
qed

lemma runActions_hidden_empty:
  "\<exists>h. handDocs s v = Some h \<and> hidden h = None \<Longrightarrow>
   \<exists>h. handDocs (runActions s acts) v = Some h \<and> hidden h = None"
  unfolding runActions_def
proof (induction acts arbitrary: s)
  case Nil
  then show ?case by simp
next
  case (Cons a acts)
  from applyAction_hidden_empty [OF Cons.prems, of a]
  have "\<exists>h. handDocs (applyAction s a) v = Some h \<and> hidden h = None" .
  from Cons.IH [OF this] show ?case by simp
qed

lemma revealedHand_cards:
  "\<not> usingHidden \<Longrightarrow> c \<in> set (visible hand) \<Longrightarrow>
     mset (visible (revealedHand hand c usingHidden)) + {#c#} = handCards hand"
  "usingHidden \<Longrightarrow> mset (visible (revealedHand hand c usingHidden)) = mset (visible hand)"
  "hidden (revealedHand hand c usingHidden) = None"
proof -
  show "mset (visible (revealedHand hand c usingHidden)) + {#c#} = handCards hand"
    if "\<not> usingHidden" "c \<in> set (visible hand)"
  proof -
    have "\<not> indexOf (visible hand) c < 0" using that(2) by (simp add: indexOf_neg_iff)
    then show ?thesis
      using that(1) mset_spliceOne_indexOf [OF that(2)]
      by (cases "hidden hand") (auto simp: revealedHand_def handCards_def Let_def mset_sort_cmp)
  qed
  show "mset (visible (revealedHand hand c usingHidden)) = mset (visible hand)" if usingHidden
    using that by (simp add: revealedHand_def mset_sort_cmp)
  show "hidden (revealedHand hand c usingHidden) = None"
    by (simp add: revealedHand_def)
qed

text \<open>
  A reveal that commits writes the hand of the revealing seat and no other hand. That seat's
  hidden slot becomes empty and is still empty after any further plays and reveals. If the card
  played is one of its visible trumps, its own hidden card, if it has one, joins its visible
  hand; if it has no visible trump, the card played is its own hidden trump.
\<close>

lemma reveal_writes_own_hand:
  assumes "mayRevealBySnapshot cl" and "revealTrumpAndPlay cl s b = Inr s'"
  shows "\<exists>u rm hand hand' c usingHidden.
           uid cl = Some u \<and> room s = Some rm \<and> handDocs s u = Some hand \<and>
           handDocs s' u = Some hand' \<and>
           chooseReveal hand (trumpSuit rm) b = Inr (c, usingHidden) \<and>
           hidden hand' = None \<and>
           (\<forall>v. v \<noteq> u \<longrightarrow> handDocs s' v = handDocs s v) \<and>
           (\<not> usingHidden \<longrightarrow>
              c \<in> set (visible hand) \<and> mset (visible hand') + {#c#} = handCards hand) \<and>
           (usingHidden \<longrightarrow>
              b \<and> hidden hand = Some c \<and> mset (visible hand') = mset (visible hand)) \<and>
           (\<forall>acts. \<exists>h. handDocs (runActions s' acts) u = Some h \<and> hidden h = None)"
proof -
  from assms(1) obtain u where u: "uid cl = Some u"
    by (cases "uid cl") (simp_all add: mayRevealBySnapshot_def)
  with assms have tx: "revealTx u s b = Inr s'" by (simp add: revealTrumpAndPlay_eq)
  from revealTx_Inr [OF tx] obtain rm hand c uh where
    rm: "room s = Some rm" and hand: "handDocs s u = Some hand"
    and ch: "chooseReveal hand (trumpSuit rm) b = Inr (c, uh)"
    and docs: "handDocs s' = (handDocs s)(u \<mapsto> revealedHand hand c uh)"
    by blast
  let ?h' = "revealedHand hand c uh"
  have h': "handDocs s' u = Some ?h'" using docs by simp
  have empty: "hidden ?h' = None" by (rule revealedHand_cards(3))
  have others: "\<forall>v. v \<noteq> u \<longrightarrow> handDocs s' v = handDocs s v" using docs by simp
  have vis: "c \<in> set (visible hand) \<and> mset (visible ?h') + {#c#} = handCards hand" if "\<not> uh"
    using chooseReveal_Inr(1) [OF ch that] revealedHand_cards(1) [OF that] by blast
  have hid: "b \<and> hidden hand = Some c \<and> mset (visible ?h') = mset (visible hand)" if uh
    using chooseReveal_Inr(2) [OF ch that] revealedHand_cards(2) [OF that] by blast
  have later: "\<forall>acts. \<exists>h. handDocs (runActions s' acts) u = Some h \<and> hidden h = None"
    using runActions_hidden_empty [of s' u] h' empty by blast
  show ?thesis
    apply (rule exI [of _ u], rule exI [of _ rm], rule exI [of _ hand], rule exI [of _ ?h'],
        rule exI [of _ c], rule exI [of _ uh])
    using u rm hand h' ch empty others vis hid later by blast
qed

lemmas reveal_defs = revealTrumpAndPlay_def revealTx_def chooseReveal_def finishTrick_def
  evaluateTrickWinner_def legalPlays_def sort_cmp_def defaultCmp_def trickCmp_def spliceOne_def
  jsRem_def teamKey_def Let_def

text \<open>The hider reveals with the visible Seven of Spades: the hidden Three of Spades joins the
  visible hand. The hider reveals with nothing but the hidden trump: it is the card played.\<close>

lemma reveal_writes_own_hand_example:
  "mayRevealBySnapshot (hiderClient hiderTrumpDoc) \<and>
   (case revealTrumpAndPlay (hiderClient hiderTrumpDoc) (hiderTurnStore hiderTrumpDoc) False of
      Inl e \<Rightarrow> False
    | Inr s' \<Rightarrow>
        handDocs s' ''a'' = Some \<lparr>visible = [Card Three Spades, Card King Clubs], hidden = None\<rparr> \<and>
        handDocs s' ''b'' = handDocs (hiderTurnStore hiderTrumpDoc) ''b'' \<and>
        map_option hidden
          (handDocs (runActions s' [PlayCard (hiderClient hiderTrumpDoc) (Card King Clubs)]) ''a'')
          = Some None) \<and>
   mayRevealBySnapshot (hiderClient hiderDoc) \<and>
   (case revealTrumpAndPlay (hiderClient hiderDoc) (hiderTurnStore hiderDoc) True of
      Inl e \<Rightarrow> False
    | Inr s' \<Rightarrow> handDocs s' ''a'' = Some \<lparr>visible = [Card King Clubs], hidden = None\<rparr>)"
proof -
  let ?R1 = "revealTrumpAndPlay (hiderClient hiderTrumpDoc) (hiderTurnStore hiderTrumpDoc) False"
  let ?R2 = "revealTrumpAndPlay (hiderClient hiderDoc) (hiderTurnStore hiderDoc) True"
  have may1: "mayRevealBySnapshot (hiderClient hiderTrumpDoc)"
    by (simp add: mayRevealBySnapshot_def table_defs)
  have may2: "mayRevealBySnapshot (hiderClient hiderDoc)"
    by (simp add: mayRevealBySnapshot_def table_defs)
  have e1: "(case ?R1 of Inl e \<Rightarrow> False
             | Inr s' \<Rightarrow> handDocs s' ''a'' =
                 Some \<lparr>visible = [Card Three Spades, Card King Clubs], hidden = None\<rparr>)"
    by (simp add: table_defs reveal_defs)
  have e2: "(case ?R2 of Inl e \<Rightarrow> False
             | Inr s' \<Rightarrow> handDocs s' ''a'' = Some \<lparr>visible = [Card King Clubs], hidden = None\<rparr>)"
    by (simp add: table_defs reveal_defs)
  from e1 obtain s1 where s1: "?R1 = Inr s1"
    "handDocs s1 ''a'' = Some \<lparr>visible = [Card Three Spades, Card King Clubs], hidden = None\<rparr>"
    by (cases ?R1) auto
  from reveal_writes_own_hand [OF may1 s1(1)] obtain u where
    u: "uid (hiderClient hiderTrumpDoc) = Some u"
    and others: "\<forall>v. v \<noteq> u \<longrightarrow> handDocs s1 v = handDocs (hiderTurnStore hiderTrumpDoc) v"
    and later: "\<forall>acts. \<exists>h. handDocs (runActions s1 acts) u = Some h \<and> hidden h = None"
    by blast
  have ua: "u = ''a''" using u by (simp add: hiderClient_def)
  have "handDocs s1 ''b'' = handDocs (hiderTurnStore hiderTrumpDoc) ''b''"
    using others ua by simp
  moreover have "map_option hidden
          (handDocs (runActions s1 [PlayCard (hiderClient hiderTrumpDoc) (Card King Clubs)]) ''a'')
          = Some None"
    using later ua by (metis option.simps(9))
  ultimately show ?thesis using may1 may2 e2 s1 by simp
qed

text \<open>
  C7. After a reveal the hider's hidden card should be a visible card of the hider's hand, also
  when another seat reveals. The code writes the revealing seat's hand only. At the table of
  three seat 1, void in Hearts, reveals with the Ace of Spades: the transaction commits and
  trump is revealed by seat 1, but the Three of Spades stays in the hidden slot of seat 0.
  When the play goes on with up-to-date components and the turn comes to seat 0, the hidden
  card cannot be played (it is not a visible card) and a reveal by seat 0 returns without
  effect (trump is revealed); after the last visible card is played the hidden card is still
  there and \<^verbatim>\<open>handFinished\<close> is false.
\<close>

theorem reveal_by_other_seat_locks_hidden_card:
  "handDocs (tableStore voidDoc) ''a''
     = Some \<lparr>visible = [Card King Clubs], hidden = Some (Card Three Spades)\<rparr> \<and>
   (case revealTrumpAndPlay (tableClient voidDoc) (tableStore voidDoc) False of
      Inl e \<Rightarrow> False
    | Inr s' \<Rightarrow>
        map_option trumpRevealed (room s') = Some (Some True) \<and>
        map_option trumpRevealedBySeat (room s') = Some (Some 1) \<and>
        map_option plays (room s') =
          Some (Some [\<lparr>seat = 0, card = Card Five Hearts, order = 0\<rparr>,
                      \<lparr>seat = 1, card = Card Ace Spades, order = 1\<rparr>]) \<and>
        handDocs s' ''b'' = Some \<lparr>visible = [Card Four Diamonds], hidden = None\<rparr> \<and>
        handDocs s' ''a'' = Some \<lparr>visible = [Card King Clubs], hidden = Some (Card Three Spades)\<rparr>) \<and>
   handDocs lockedStore ''a''
     = Some \<lparr>visible = [Card King Clubs], hidden = Some (Card Three Spades)\<rparr> \<and>
   map_option trumpRevealed (room lockedStore) = Some (Some True) \<and>
   map_option currentTurnSeat (room lockedStore) = Some (Some (Number 0)) \<and>
   playCard (upToDate ''a'' lockedStore) lockedStore (Card Three Spades)
     = Inl (Error ''Card not in your hand'') \<and>
   revealTrumpAndPlay (upToDate ''a'' lockedStore) lockedStore True = Inr lockedStore \<and>
   map (handDocs (submit lockedStore (''a'', Plays (Card King Clubs)))) [''a'', ''b'', ''c'']
     = [Some \<lparr>visible = [], hidden = Some (Card Three Spades)\<rparr>,
        Some \<lparr>visible = [], hidden = None\<rparr>,
        Some \<lparr>visible = [], hidden = None\<rparr>] \<and>
   \<not> handFinished [\<lparr>visible = [], hidden = Some (Card Three Spades)\<rparr>,
                     \<lparr>visible = [], hidden = None\<rparr>,
                     \<lparr>visible = [], hidden = None\<rparr>]"
  by (simp add: lockedStore_def handFinished_def table_defs play_defs reveal_defs)


end
